theory Spec2Isabelle
  imports Complex_Main "HOL-Library.AList"
begin

section \<open>Data model of \<open>server.py\<close>\<close>

text \<open>
  Clock readings of \<open>datetime.now()\<close> are microseconds since the epoch: \<open>datetime\<close> has
  exactly that resolution, and an ISO string written by \<open>isoformat()\<close> and read back by
  \<open>fromisoformat(...).timestamp()\<close> is taken to be the same reading (the naive local time
  it holds names one instant, except in the hour a change of the clock repeats). Every
  operation that reads the clock takes the reading as its argument \<open>now\<close>; the readings of
  \<open>time.time()\<close> stored in a session are kept to the microsecond too. The one reading
  that is compared, \<open>current_time\<close> of the sweep, is a float and need not be a whole number
  of microseconds: it is a rational number of microseconds.
\<close>

type_synonym time = nat

datatype exn = HTTPException nat string | Exception string

text \<open>One entry of \<open>metadata["screenshots"]\<close>, \<open>["videos"]\<close> or \<open>["traces"]\<close>. The keys
  \<open>action\<close> and \<open>url\<close> exist in screenshot entries only.\<close>

record asset_entry =
  filename :: string
  filepath :: string
  entry_action :: "string option"
  description :: string
  entry_url :: "string option"
  sequence :: nat
  timestamp :: time

record metadata =
  md_session_id :: string
  md_created_at :: time
  md_browser_type :: string
  md_headless :: bool
  md_viewport :: "int \<times> int"
  md_record_video :: bool
  md_status :: string
  md_total_actions :: nat
  md_screenshots :: "asset_entry list"
  md_videos :: "asset_entry list"
  md_traces :: "asset_entry list"
  md_last_activity :: time
  md_session_dir :: string

text \<open>The calls the server makes on the objects Playwright gives it. The engine is a
  parameter: \<open>call\<close> answers a call in a state of the session's browser with the message
  of the exception it raises, if any, and the state afterwards.\<close>

datatype page_call =
    Goto "string option" "int option"
  | Click "string option" "int option"
  | Fill "string option" "string option"
  | Wait_for_timeout "int option"
  | Screenshot string
  | Context_close
  | Browser_close
  | Playwright_exit

record 'p engine =
  launch :: "string \<Rightarrow> bool \<Rightarrow> int \<Rightarrow> int \<Rightarrow> string option \<Rightarrow> string + 'p"
  call :: "'p \<Rightarrow> page_call \<Rightarrow> string option \<times> 'p"

text \<open>The dictionary \<open>session_data\<close> of \<open>create_session\<close>; \<open>page\<close> stands for the four
  handles \<open>playwright\<close>, \<open>browser\<close>, \<open>context\<close> and \<open>page\<close>.\<close>

record 'p session =
  page :: 'p
  screenshots :: "string list"
  videos :: "string list"
  traces :: "string list"
  created_at :: time
  action_count :: nat
  last_activity :: time
  recording_video :: bool
  metadata :: metadata

text \<open>A session directory on disk: its \<open>metadata.json\<close> (absent, unreadable, or a parsed
  dictionary) and the file names in \<open>videos/\<close> (\<open>None\<close> when that directory is missing).\<close>

datatype meta_file = Parsed metadata | Malformed

record session_directory =
  metadata_json :: "meta_file option"
  videos_dir :: "string list option"

text \<open>The state the server works on: \<open>session_manager.sessions\<close>, the directories
  \<open>session_*\<close> under \<open>recordings/sessions\<close> and the directories under
  \<open>recordings/archived\<close>, both keyed by their full path, in listing order. A missing
  \<open>sessions\<close> directory is the empty listing.\<close>

record 'p world =
  sessions :: "string \<rightharpoonup> 'p session"
  session_dirs :: "(string \<times> session_directory) list"
  archived :: "(string \<times> session_directory) list"

section \<open>String helpers\<close>

definition digit_char :: "nat \<Rightarrow> char" where
  "digit_char d = char_of (48 + d)"

function dec :: "nat \<Rightarrow> string" where
  "dec n = (if n < 10 then [digit_char n] else dec (n div 10) @ [digit_char (n mod 10)])"
  by pat_completeness auto
termination
  by (relation "measure id") auto

declare dec.simps [simp del]

text \<open>\<open>f"{n:03d}"\<close>: decimal, padded with zeros to three digits at least.\<close>

definition fmt03d :: "nat \<Rightarrow> string" where
  "fmt03d n = replicate (3 - length (dec n)) (CHR ''0'') @ dec n"

text \<open>\<open>s.replace(" ", "_")\<close>\<close>

definition replace_spaces :: "string \<Rightarrow> string" where
  "replace_spaces s = map (\<lambda>c. if c = CHR '' '' then CHR ''_'' else c) s"

definition endswith :: "string \<Rightarrow> string \<Rightarrow> bool" where
  "endswith s suffix = (length suffix \<le> length s \<and> drop (length s - length suffix) s = suffix)"

definition basename :: "string \<Rightarrow> string" where
  "basename p = rev (takeWhile (\<lambda>c. c \<noteq> CHR ''/'') (rev p))"

section \<open>\<open>SessionManager\<close>\<close>

definition recordings_base :: string where
  "recordings_base = ''/opt/code-server/recordings''"

definition session_dir_path :: "string \<Rightarrow> string" where
  "session_dir_path session_id = recordings_base @ ''/sessions/session_'' @ session_id"

text \<open>\<open>_save_session_metadata\<close>: \<open>open(path, 'w')\<close> raises when the session directory is
  missing; otherwise the whole file is overwritten.\<close>

definition save_session_metadata :: "string \<Rightarrow> metadata \<Rightarrow> 'p world \<Rightarrow> exn + 'p world" where
  "save_session_metadata session_id md w =
     (case map_of (session_dirs w) (session_dir_path session_id) of
        None \<Rightarrow> Inl (Exception ''FileNotFoundError'')
      | Some d \<Rightarrow>
          Inr (w\<lparr>session_dirs :=
                   AList.update (session_dir_path session_id)
                     (d\<lparr>metadata_json := Some (Parsed md)\<rparr>) (session_dirs w)\<rparr>))"

text \<open>The three values \<open>asset_type\<close> takes at the call sites of
  \<open>_get_next_sequence_number\<close>, and \<open>metadata[asset_type]\<close>.\<close>

datatype asset_type = Screenshots | Videos | Traces

fun assets :: "asset_type \<Rightarrow> metadata \<Rightarrow> asset_entry list" where
  "assets Screenshots md = md_screenshots md"
| "assets Videos md = md_videos md"
| "assets Traces md = md_traces md"

definition get_next_sequence_number :: "'p world \<Rightarrow> string \<Rightarrow> asset_type \<Rightarrow> nat" where
  "get_next_sequence_number w session_id asset_type =
     (case sessions w session_id of
        None \<Rightarrow> 1
      | Some session \<Rightarrow> length (assets asset_type (metadata session)) + 1)"

text \<open>The \<open>add_*\<close> methods return the path, or \<open>None\<close> for an unknown session. They change
  the session in memory first and write the file last, so the state in memory is changed
  also when the write raises.\<close>

definition add_screenshot ::
  "time \<Rightarrow> string \<Rightarrow> string \<Rightarrow> string \<Rightarrow> string \<Rightarrow> 'p world \<Rightarrow> (exn + string option) \<times> 'p world" where
  "add_screenshot now session_id act descr u w =
     (case sessions w session_id of
        None \<Rightarrow> (Inr None, w)
      | Some session \<Rightarrow>
          (let seq_num = get_next_sequence_number w session_id Screenshots;
               fname = replace_spaces (fmt03d seq_num @ ''_'' @ act @ ''_'' @ descr @ ''.png'');
               fpath = md_session_dir (metadata session) @ ''/screenshots/'' @ fname;
               entry = \<lparr>filename = fname, filepath = fpath, entry_action = Some act,
                        description = descr, entry_url = Some u, sequence = seq_num,
                        timestamp = now\<rparr>;
               md = (metadata session)
                      \<lparr>md_screenshots := md_screenshots (metadata session) @ [entry],
                       md_total_actions := md_total_actions (metadata session) + 1,
                       md_last_activity := now\<rparr>;
               session' = session\<lparr>screenshots := screenshots session @ [fpath],
                                  metadata := md, last_activity := now\<rparr>;
               w' = w\<lparr>sessions := (sessions w)(session_id \<mapsto> session')\<rparr>
           in case save_session_metadata session_id md w' of
                Inl e \<Rightarrow> (Inl e, w')
              | Inr w'' \<Rightarrow> (Inr (Some fpath), w'')))"

definition add_video ::
  "time \<Rightarrow> string \<Rightarrow> string \<Rightarrow> 'p world \<Rightarrow> (exn + string option) \<times> 'p world" where
  "add_video now session_id descr w =
     (case sessions w session_id of
        None \<Rightarrow> (Inr None, w)
      | Some session \<Rightarrow>
          (let seq_num = get_next_sequence_number w session_id Videos;
               fname = replace_spaces (fmt03d seq_num @ ''_'' @ descr @ ''.webm'');
               fpath = md_session_dir (metadata session) @ ''/videos/'' @ fname;
               entry = \<lparr>filename = fname, filepath = fpath, entry_action = None,
                        description = descr, entry_url = None, sequence = seq_num,
                        timestamp = now\<rparr>;
               md = (metadata session)
                      \<lparr>md_videos := md_videos (metadata session) @ [entry],
                       md_last_activity := now\<rparr>;
               session' = session\<lparr>videos := videos session @ [fpath], metadata := md\<rparr>;
               w' = w\<lparr>sessions := (sessions w)(session_id \<mapsto> session')\<rparr>
           in case save_session_metadata session_id md w' of
                Inl e \<Rightarrow> (Inl e, w')
              | Inr w'' \<Rightarrow> (Inr (Some fpath), w'')))"

definition add_trace ::
  "time \<Rightarrow> string \<Rightarrow> string \<Rightarrow> 'p world \<Rightarrow> (exn + string option) \<times> 'p world" where
  "add_trace now session_id descr w =
     (case sessions w session_id of
        None \<Rightarrow> (Inr None, w)
      | Some session \<Rightarrow>
          (let seq_num = get_next_sequence_number w session_id Traces;
               fname = replace_spaces (fmt03d seq_num @ ''_'' @ descr @ ''.zip'');
               fpath = md_session_dir (metadata session) @ ''/traces/'' @ fname;
               entry = \<lparr>filename = fname, filepath = fpath, entry_action = None,
                        description = descr, entry_url = None, sequence = seq_num,
                        timestamp = now\<rparr>;
               md = (metadata session)
                      \<lparr>md_traces := md_traces (metadata session) @ [entry],
                       md_last_activity := now\<rparr>;
               session' = session\<lparr>traces := traces session @ [fpath], metadata := md\<rparr>;
               w' = w\<lparr>sessions := (sessions w)(session_id \<mapsto> session')\<rparr>
           in case save_session_metadata session_id md w' of
                Inl e \<Rightarrow> (Inl e, w')
              | Inr w'' \<Rightarrow> (Inr (Some fpath), w'')))"

text \<open>\<open>_create_session_directory\<close>: \<open>os.makedirs(..., exist_ok=True)\<close> keeps what is
  there.\<close>

definition create_session_directory :: "string \<Rightarrow> 'p world \<Rightarrow> string \<times> 'p world" where
  "create_session_directory session_id w =
     (let session_dir = session_dir_path session_id;
          d = (case map_of (session_dirs w) session_dir of
                 None \<Rightarrow> \<lparr>metadata_json = None, videos_dir = Some []\<rparr>
               | Some d0 \<Rightarrow>
                   d0\<lparr>videos_dir := Some (case videos_dir d0 of None \<Rightarrow> [] | Some fs \<Rightarrow> fs)\<rparr>)
      in (session_dir, w\<lparr>session_dirs := AList.update session_dir d (session_dirs w)\<rparr>))"

text \<open>\<open>create_session\<close>: the directory first, then the browser (a failed launch leaves the
  directory), then the initial metadata, written before the session is registered.\<close>

definition create_session ::
  "'p engine \<Rightarrow> time \<Rightarrow> string \<Rightarrow> string \<Rightarrow> bool \<Rightarrow> int \<Rightarrow> int \<Rightarrow> bool \<Rightarrow> 'p world
     \<Rightarrow> (exn + 'p session) \<times> 'p world" where
  "create_session eng now session_id browser_type headless viewport_width viewport_height
       record_video w =
     (case create_session_directory session_id w of
        (session_dir, w1) \<Rightarrow>
          (case launch eng browser_type headless viewport_width viewport_height
                  (if record_video then Some (session_dir_path session_id @ ''/videos'') else None) of
             Inl e \<Rightarrow> (Inl (Exception e), w1)
           | Inr p \<Rightarrow>
               (let md = \<lparr>md_session_id = session_id, md_created_at = now,
                           md_browser_type = browser_type, md_headless = headless,
                           md_viewport = (viewport_width, viewport_height),
                           md_record_video = record_video, md_status = ''active'',
                           md_total_actions = 0, md_screenshots = [], md_videos = [],
                           md_traces = [], md_last_activity = now,
                           md_session_dir = session_dir\<rparr>;
                    session_data = \<lparr>page = p, screenshots = [], videos = [], traces = [],
                                    created_at = now, action_count = 0, last_activity = now,
                                    recording_video = record_video, metadata = md\<rparr>
                in case save_session_metadata session_id md w1 of
                     Inl e \<Rightarrow> (Inl e, w1)
                   | Inr w2 \<Rightarrow>
                       (Inr session_data,
                        w2\<lparr>sessions := (sessions w2)(session_id \<mapsto> session_data)\<rparr>))))"

text \<open>The first part of \<open>close_session\<close>: when the session records video, the first
  \<open>.webm\<close> file of its \<open>videos/\<close> directory is registered with \<open>add_video\<close> and renamed to the
  path that gives.\<close>

definition rename_in :: "string \<Rightarrow> string \<Rightarrow> string list \<Rightarrow> string list" where
  "rename_in old new fs = new # filter (\<lambda>f. f \<noteq> old \<and> f \<noteq> new) fs"

definition finalize_video :: "time \<Rightarrow> string \<Rightarrow> 'p session \<Rightarrow> 'p world \<Rightarrow> (exn + unit) \<times> 'p world" where
  "finalize_video now session_id session w =
     (if md_record_video (metadata session) then
        (let session_dir = md_session_dir (metadata session);
             video_path = session_dir @ ''/videos/''
         in case map_of (session_dirs w) session_dir of
              None \<Rightarrow> (Inr (), w)
            | Some d \<Rightarrow>
                (case videos_dir d of
                   None \<Rightarrow> (Inr (), w)
                 | Some fs \<Rightarrow>
                     (case filter (\<lambda>f. endswith f ''.webm'') fs of
                        [] \<Rightarrow> (Inr (), w)
                      | f # _ \<Rightarrow>
                          (case add_video now session_id ''session_recording'' w of
                             (Inl e, w1) \<Rightarrow> (Inl e, w1)
                           | (Inr None, w1) \<Rightarrow> (Inr (), w1)
                           | (Inr (Some new_video_path), w1) \<Rightarrow>
                               (case map_of (session_dirs w1) session_dir of
                                  None \<Rightarrow> (Inr (), w1)
                                | Some d1 \<Rightarrow>
                                    (case videos_dir d1 of
                                       None \<Rightarrow> (Inr (), w1)
                                     | Some fs1 \<Rightarrow>
                                         if f \<in> set fs1 then
                                           (Inr (),
                                            w1\<lparr>session_dirs :=
                                                 AList.update session_dir
                                                   (d1\<lparr>videos_dir :=
                                                        Some (rename_in f
                                                          (drop (length video_path) new_video_path)
                                                          fs1)\<rparr>)
                                                   (session_dirs w1)\<rparr>)
                                         else (Inr (), w1)))))))
      else (Inr (), w))"

fun run_calls :: "'p engine \<Rightarrow> 'p \<Rightarrow> page_call list \<Rightarrow> string option \<times> 'p" where
  "run_calls eng p [] = (None, p)"
| "run_calls eng p (c # cs) =
     (case call eng p c of
        (Some e, p') \<Rightarrow> (Some e, p')
      | (None, p') \<Rightarrow> run_calls eng p' cs)"

text \<open>\<open>SessionManager.close_session\<close>. The variable \<open>session\<close> of the source is the
  dictionary that \<open>add_video\<close> has updated in place, so its value after the video part is
  read from the store again. An unknown id does nothing. The last call,
  \<open>Playwright_exit\<close>, is \<open>session["playwright"].__aexit__(None, None, None)\<close> on the object
  that \<open>__aenter__()\<close> returned in \<open>create_session\<close>; the entry is deleted from the store
  only after it.\<close>

definition close_session :: "'p engine \<Rightarrow> time \<Rightarrow> string \<Rightarrow> 'p world \<Rightarrow> (exn + unit) \<times> 'p world" where
  "close_session eng now session_id w =
     (case sessions w session_id of
        None \<Rightarrow> (Inr (), w)
      | Some session0 \<Rightarrow>
          (case finalize_video now session_id session0 w of
             (Inl e, w1) \<Rightarrow> (Inl e, w1)
           | (Inr _, w1) \<Rightarrow>
               (case sessions w1 session_id of
                  None \<Rightarrow> (Inr (), w1)
                | Some session \<Rightarrow>
                    (let md = (metadata session)\<lparr>md_status := ''completed'', md_last_activity := now\<rparr>;
                         session' = session\<lparr>metadata := md\<rparr>;
                         w2 = w1\<lparr>sessions := (sessions w1)(session_id \<mapsto> session')\<rparr>
                     in case save_session_metadata session_id md w2 of
                          Inl e \<Rightarrow> (Inl e, w2)
                        | Inr w3 \<Rightarrow>
                            (case run_calls eng (page session')
                                    [Context_close, Browser_close, Playwright_exit] of
                               (Some e, p') \<Rightarrow>
                                 (Inl (Exception e),
                                  w3\<lparr>sessions := (sessions w3)(session_id \<mapsto> session'\<lparr>page := p'\<rparr>)\<rparr>)
                             | (None, p') \<Rightarrow>
                                 (Inr (), w3\<lparr>sessions := (sessions w3)(session_id := None)\<rparr>))))))"

section \<open>The routes\<close>

text \<open>\<open>DELETE /api/sessions/{session_id}\<close>: the function \<open>close_session\<close> at module
  level. Its answer carries the session id and the time.\<close>

definition close_session_endpoint ::
  "'p engine \<Rightarrow> time \<Rightarrow> string \<Rightarrow> 'p world \<Rightarrow> (exn + string \<times> time) \<times> 'p world" where
  "close_session_endpoint eng now session_id w =
     (case sessions w session_id of
        None \<Rightarrow> (Inl (HTTPException 404 ''Session not found''), w)
      | Some _ \<Rightarrow>
          (case close_session eng now session_id w of
             (Inl e, w') \<Rightarrow> (Inl e, w')
           | (Inr _, w') \<Rightarrow> (Inr (session_id, now), w')))"

text \<open>\<open>SequenceAction\<close> (the field \<open>text\<close> is \<open>input_text\<close> here) and the dictionary
  \<open>result\<close> of one step: a key the step does not set is \<open>None\<close>, and a key set to the
  action's field holds that field, which may itself be \<open>None\<close>.\<close>

record sequence_action =
  action :: string
  url :: "string option"
  selector :: "string option"
  input_text :: "string option"
  timeout :: "int option"
  screenshot_after :: "bool option"
  wait_for_analysis :: "bool option"

record step_result =
  r_action :: string
  r_step :: nat
  r_status :: string
  r_url :: "string option option"
  r_selector :: "string option option"
  r_text :: "string option option"
  r_timeout :: "int option option"
  r_screenshot_path :: "string option"
  r_message :: "string option"

definition new_result :: "sequence_action \<Rightarrow> nat \<Rightarrow> string \<Rightarrow> step_result" where
  "new_result a i st =
     \<lparr>r_action = action a, r_step = i, r_status = st, r_url = None, r_selector = None,
      r_text = None, r_timeout = None, r_screenshot_path = None, r_message = None\<rparr>"

datatype step_exit = Step_done step_result | Step_paused step_result string | Step_raised string

definition analysis_path :: "string \<Rightarrow> nat \<Rightarrow> string" where
  "analysis_path session_id i =
     recordings_base @ ''/screenshots/session_'' @ session_id @ ''_analysis_'' @ dec i @ ''.png''"

definition step_path :: "string \<Rightarrow> nat \<Rightarrow> string" where
  "step_path session_id i =
     recordings_base @ ''/screenshots/session_'' @ session_id @ ''_step_'' @ dec i @ ''.png''"

definition error_path :: "string \<Rightarrow> string" where
  "error_path session_id = recordings_base @ ''/screenshots/session_'' @ session_id @ ''_error.png''"

text \<open>The \<open>if\<close>/\<open>elif\<close> chain of the loop body of \<open>execute_sequence\<close>, up to the
  \<open>return\<close> of the checkpoint branch.\<close>

definition apply_action ::
  "'p engine \<Rightarrow> string \<Rightarrow> nat \<Rightarrow> sequence_action \<Rightarrow> 'p session \<Rightarrow> step_exit \<times> 'p session" where
  "apply_action eng session_id i a s =
     (if action a = ''goto'' then
        (case call eng (page s) (Goto (url a) (timeout a)) of
           (Some e, p) \<Rightarrow> (Step_raised e, s\<lparr>page := p\<rparr>)
         | (None, p) \<Rightarrow>
             (Step_done ((new_result a i ''success'')\<lparr>r_url := Some (url a)\<rparr>), s\<lparr>page := p\<rparr>))
      else if action a = ''click'' then
        (case call eng (page s) (Click (selector a) (timeout a)) of
           (Some e, p) \<Rightarrow> (Step_raised e, s\<lparr>page := p\<rparr>)
         | (None, p) \<Rightarrow>
             (Step_done ((new_result a i ''success'')\<lparr>r_selector := Some (selector a)\<rparr>),
              s\<lparr>page := p\<rparr>))
      else if action a = ''type'' then
        (case call eng (page s) (Fill (selector a) (input_text a)) of
           (Some e, p) \<Rightarrow> (Step_raised e, s\<lparr>page := p\<rparr>)
         | (None, p) \<Rightarrow>
             (Step_done ((new_result a i ''success'')
                           \<lparr>r_selector := Some (selector a), r_text := Some (input_text a)\<rparr>),
              s\<lparr>page := p\<rparr>))
      else if action a = ''wait'' then
        (case call eng (page s) (Wait_for_timeout (timeout a)) of
           (Some e, p) \<Rightarrow> (Step_raised e, s\<lparr>page := p\<rparr>)
         | (None, p) \<Rightarrow>
             (Step_done ((new_result a i ''success'')\<lparr>r_timeout := Some (timeout a)\<rparr>),
              s\<lparr>page := p\<rparr>))
      else if action a = ''wait_for_screenshot_analysis'' then
        (let screenshot_path = analysis_path session_id i
         in case call eng (page s) (Screenshot screenshot_path) of
              (Some e, p) \<Rightarrow> (Step_raised e, s\<lparr>page := p\<rparr>)
            | (None, p) \<Rightarrow>
                (Step_paused
                   ((new_result a i ''waiting_for_analysis'')
                      \<lparr>r_screenshot_path := Some screenshot_path,
                       r_message := Some ''Execution paused - analyze screenshot and continue with next API call''\<rparr>)
                   screenshot_path,
                 s\<lparr>page := p, screenshots := screenshots s @ [screenshot_path]\<rparr>))
      else
        (Step_done ((new_result a i ''error'')
                      \<lparr>r_message := Some (''Unknown action: '' @ action a)\<rparr>), s))"

text \<open>How the loop ends: the list is exhausted, a checkpoint returns, or an exception
  reaches the handler. The arguments are the local variables \<open>action_results\<close> and
  \<open>screenshots\<close>; \<open>all_actions\<close> is \<open>sequence_input.actions\<close>, of which the checkpoint
  returns the slice \<open>[i+1:]\<close>.\<close>

datatype loop_exit =
    Exhausted "step_result list" "string list"
  | Paused nat string "sequence_action list" "step_result list"
  | Raised string "step_result list"

fun sequence_loop ::
  "'p engine \<Rightarrow> string \<Rightarrow> sequence_action list \<Rightarrow> nat \<Rightarrow> sequence_action list
     \<Rightarrow> step_result list \<Rightarrow> string list \<Rightarrow> 'p session \<Rightarrow> loop_exit \<times> 'p session" where
  "sequence_loop eng session_id all_actions i [] action_results shots s =
     (Exhausted action_results shots, s)"
| "sequence_loop eng session_id all_actions i (a # rest) action_results shots s =
     (case apply_action eng session_id i a s of
        (Step_raised e, s1) \<Rightarrow> (Raised e action_results, s1)
      | (Step_paused r screenshot_path, s1) \<Rightarrow>
          (Paused i screenshot_path (drop (i + 1) all_actions) (action_results @ [r]), s1)
      | (Step_done r, s1) \<Rightarrow>
          (if screenshot_after a = Some True then
             (case call eng (page s1) (Screenshot (step_path session_id i)) of
                (Some e, p) \<Rightarrow> (Raised e action_results, s1\<lparr>page := p\<rparr>)
              | (None, p) \<Rightarrow>
                  sequence_loop eng session_id all_actions (i + 1) rest
                    (action_results @ [r\<lparr>r_screenshot_path := Some (step_path session_id i)\<rparr>])
                    (shots @ [step_path session_id i])
                    (s1\<lparr>page := p, screenshots := screenshots s1 @ [step_path session_id i]\<rparr>))
           else sequence_loop eng session_id all_actions (i + 1) rest (action_results @ [r]) shots s1))"

text \<open>The three dictionaries \<open>execute_sequence\<close> returns.\<close>

datatype sequence_response =
    Completed (resp_session_id: string) (actions_executed: nat)
      (resp_action_results: "step_result list") (resp_screenshots: "string list") (resp_time: time)
  | Paused_for_analysis (resp_session_id: string) (current_step: nat)
      (screenshot_for_analysis: string) (next_actions: "sequence_action list")
      (completed_actions: "step_result list")
  | Error_response (resp_session_id: string) (resp_error: string) (error_screenshot: string)
      (completed_actions: "step_result list") (resp_time: time)

definition status_of :: "sequence_response \<Rightarrow> string" where
  "status_of r =
     (case r of
        Completed _ _ _ _ _ \<Rightarrow> ''completed''
      | Paused_for_analysis _ _ _ _ _ \<Rightarrow> ''paused_for_analysis''
      | Error_response _ _ _ _ _ \<Rightarrow> ''error'')"

text \<open>\<open>POST /api/sessions/{session_id}/sequence\<close>. The handler of the \<open>try\<close> takes the
  error screenshot outside any \<open>try\<close>: an exception there leaves the function.\<close>

definition execute_sequence ::
  "'p engine \<Rightarrow> time \<Rightarrow> string \<Rightarrow> sequence_action list \<Rightarrow> 'p world
     \<Rightarrow> (exn + sequence_response) \<times> 'p world" where
  "execute_sequence eng now session_id actions w =
     (case sessions w session_id of
        None \<Rightarrow> (Inl (HTTPException 404 ''Session not found''), w)
      | Some session \<Rightarrow>
          (case sequence_loop eng session_id actions 0 actions [] [] session of
             (Exhausted action_results shots, s1) \<Rightarrow>
               (Inr (Completed session_id (length action_results) action_results shots now),
                w\<lparr>sessions := (sessions w)(session_id \<mapsto> s1)\<rparr>)
           | (Paused i screenshot_path rest action_results, s1) \<Rightarrow>
               (Inr (Paused_for_analysis session_id i screenshot_path rest action_results),
                w\<lparr>sessions := (sessions w)(session_id \<mapsto> s1)\<rparr>)
           | (Raised e action_results, s1) \<Rightarrow>
               (case call eng (page s1) (Screenshot (error_path session_id)) of
                  (Some e', p) \<Rightarrow>
                    (Inl (Exception e'),
                     w\<lparr>sessions := (sessions w)(session_id \<mapsto> s1\<lparr>page := p\<rparr>)\<rparr>)
                | (None, p) \<Rightarrow>
                    (Inr (Error_response session_id e (error_path session_id) action_results now),
                     w\<lparr>sessions := (sessions w)(session_id \<mapsto> s1\<lparr>page := p\<rparr>)\<rparr>))))"

text \<open>\<open>shutil.move\<close> of a session directory to a path under \<open>archived\<close>: into the
  destination when that is a directory already, refused when the name is taken there too.\<close>

definition shutil_move :: "string \<Rightarrow> string \<Rightarrow> 'p world \<Rightarrow> exn + 'p world" where
  "shutil_move src dst w =
     (case map_of (session_dirs w) src of
        None \<Rightarrow> Inl (Exception ''FileNotFoundError'')
      | Some d \<Rightarrow>
          (let real_dst = (if map_of (archived w) dst = None then dst
                           else dst @ ''/'' @ basename src)
           in if map_of (archived w) real_dst \<noteq> None
              then Inl (Exception ''Destination path already exists'')
              else Inr (w\<lparr>session_dirs := AList.delete src (session_dirs w),
                         archived := archived w @ [(real_dst, d)]\<rparr>)))"

definition archive_path :: "string \<Rightarrow> time \<Rightarrow> string" where
  "archive_path session_id last_act =
     recordings_base @ ''/archived/session_'' @ session_id @ ''_'' @ dec (last_act div 1000000)"

text \<open>\<open>current_time - last_activity > max_age_seconds\<close>, in microseconds.\<close>

definition too_old :: "rat \<Rightarrow> int \<Rightarrow> time \<Rightarrow> bool" where
  "too_old current_time max_age_hours last_act =
     (current_time - of_nat last_act > of_int (max_age_hours * 3600 * 1000000))"

record cleaned_session =
  cs_session_id :: string
  cs_last_activity :: time
  cs_archived_to :: string

text \<open>The body of the loop of \<open>cleanup_old_sessions\<close> for one path of the listing.
  \<open>close_at\<close> is the reading of the clock when the session is closed. Every exception
  below the \<open>try\<close> skips the directory.\<close>

definition cleanup_one ::
  "'p engine \<Rightarrow> rat \<Rightarrow> time \<Rightarrow> int \<Rightarrow> string \<Rightarrow> 'p world \<times> cleaned_session list
     \<Rightarrow> 'p world \<times> cleaned_session list" where
  "cleanup_one eng current_time close_at max_age_hours session_path st =
     (case st of (w, cleaned) \<Rightarrow>
        (case map_of (session_dirs w) session_path of
           None \<Rightarrow> (w, cleaned)
         | Some d \<Rightarrow>
             (case metadata_json d of
                None \<Rightarrow> (w, cleaned)
              | Some Malformed \<Rightarrow> (w, cleaned)
              | Some (Parsed md) \<Rightarrow>
                  if too_old current_time max_age_hours (md_last_activity md) then
                    (case (if sessions w (md_session_id md) \<noteq> None
                           then close_session eng close_at (md_session_id md) w
                           else (Inr (), w)) of
                       (Inl e, w1) \<Rightarrow> (w1, cleaned)
                     | (Inr _, w1) \<Rightarrow>
                         (case shutil_move session_path
                                 (archive_path (md_session_id md) (md_last_activity md)) w1 of
                            Inl e \<Rightarrow> (w1, cleaned)
                          | Inr w2 \<Rightarrow>
                              (w2, cleaned @
                                 [\<lparr>cs_session_id = md_session_id md,
                                   cs_last_activity = md_last_activity md,
                                   cs_archived_to =
                                     archive_path (md_session_id md) (md_last_activity md)\<rparr>])))
                  else (w, cleaned))))"

text \<open>\<open>POST /api/sessions/cleanup-old\<close>: the listing is taken once, before the loop.\<close>

definition cleanup_old_sessions ::
  "'p engine \<Rightarrow> rat \<Rightarrow> time \<Rightarrow> int \<Rightarrow> 'p world \<Rightarrow> cleaned_session list \<times> 'p world" where
  "cleanup_old_sessions eng current_time close_at max_age_hours w =
     (case fold (cleanup_one eng current_time close_at max_age_hours)
             (map fst (session_dirs w)) (w, []) of
        (w', cleaned) \<Rightarrow> (cleaned, w'))"

section \<open>Reading the state\<close>

text \<open>What \<open>metadata.json\<close> of a session holds, when it is there and parses, and the number
  of entries of a kind it records.\<close>

definition persisted_metadata :: "'p world \<Rightarrow> string \<Rightarrow> metadata option" where
  "persisted_metadata w session_id =
     (case map_of (session_dirs w) (session_dir_path session_id) of
        None \<Rightarrow> None
      | Some d \<Rightarrow> (case metadata_json d of Some (Parsed md) \<Rightarrow> Some md | _ \<Rightarrow> None))"

definition persisted_count :: "'p world \<Rightarrow> string \<Rightarrow> asset_type \<Rightarrow> nat option" where
  "persisted_count w session_id asset_type =
     map_option (\<lambda>md. length (assets asset_type md)) (persisted_metadata w session_id)"

text \<open>A call of one of the three \<open>add_*\<close> methods with its arguments, and a run of such
  calls one after the other on one session, each at its own reading of the clock; a call
  that raises leaves the state it has reached to the next call.\<close>

datatype add_call = Add_screenshot string string string | Add_video string | Add_trace string

fun kind_of :: "add_call \<Rightarrow> asset_type" where
  "kind_of (Add_screenshot _ _ _) = Screenshots"
| "kind_of (Add_video _) = Videos"
| "kind_of (Add_trace _) = Traces"

fun add_asset :: "time \<Rightarrow> string \<Rightarrow> add_call \<Rightarrow> 'p world \<Rightarrow> (exn + string option) \<times> 'p world" where
  "add_asset now session_id (Add_screenshot act descr u) w = add_screenshot now session_id act descr u w"
| "add_asset now session_id (Add_video descr) w = add_video now session_id descr w"
| "add_asset now session_id (Add_trace descr) w = add_trace now session_id descr w"

fun add_assets :: "string \<Rightarrow> (time \<times> add_call) list \<Rightarrow> 'p world \<Rightarrow> 'p world" where
  "add_assets session_id [] w = w"
| "add_assets session_id ((now, c) # cs) w = add_assets session_id cs (snd (add_asset now session_id c w))"

section \<open>Engines and states to run the definitions on\<close>

text \<open>An engine whose state is the list of the calls made so far and that raises on the
  calls \<open>bad\<close> selects; \<open>launch\<close> always succeeds.\<close>

definition engine_failing :: "(page_call \<Rightarrow> bool) \<Rightarrow> page_call list engine" where
  "engine_failing bad =
     \<lparr>launch = (\<lambda>browser_type headless vw vh video_dir. Inr []),
      call = (\<lambda>p c. (if bad c then Some ''Timeout 5000ms exceeded'' else None, p @ [c]))\<rparr>"

definition working_engine :: "page_call list engine" where
  "working_engine = engine_failing (\<lambda>c. False)"

definition offline_engine :: "page_call list engine" where
  "offline_engine = engine_failing (\<lambda>c. case c of Goto _ _ \<Rightarrow> True | _ \<Rightarrow> False)"

definition no_capture_engine :: "page_call list engine" where
  "no_capture_engine = engine_failing (\<lambda>c. case c of Screenshot _ \<Rightarrow> True | _ \<Rightarrow> False)"

definition dead_engine :: "page_call list engine" where
  "dead_engine = engine_failing (\<lambda>c. True)"

text \<open>The engine as \<open>create_session\<close> holds it: every call on the page, the context and the
  browser succeeds, and the object kept under \<open>playwright\<close>, the one \<open>__aenter__()\<close>
  returned, has no \<open>__aexit__\<close>.\<close>

definition kept_handle_engine :: "page_call list engine" where
  "kept_handle_engine =
     \<lparr>launch = (\<lambda>browser_type headless vw vh video_dir. Inr []),
      call = (\<lambda>p c. (if c = Playwright_exit
                      then Some ''AttributeError: Playwright object has no attribute __aexit__''
                      else None, p @ [c]))\<rparr>"

definition empty_world :: "page_call list world" where
  "empty_world = \<lparr>sessions = Map.empty, session_dirs = [], archived = []\<rparr>"

text \<open>The state after \<open>create_session\<close> of session \<open>abc12345\<close> at time 1000000, without
  and with video recording.\<close>

definition fresh_world :: "page_call list world" where
  "fresh_world =
     snd (create_session working_engine 1000000 ''abc12345'' ''chromium'' True 1280 720 False
            empty_world)"

definition video_world :: "page_call list world" where
  "video_world =
     snd (create_session working_engine 1000000 ''abc12345'' ''chromium'' True 1280 720 True
            empty_world)"

definition an_entry :: "nat \<Rightarrow> asset_entry" where
  "an_entry n =
     \<lparr>filename = fmt03d n @ ''_manual_screenshot.png'',
      filepath = session_dir_path ''abc12345'' @ ''/screenshots/'' @ fmt03d n @ ''_manual_screenshot.png'',
      entry_action = Some ''manual'', description = ''screenshot'', entry_url = Some [],
      sequence = n, timestamp = 2000000\<rparr>"

text \<open>The state after a restart of the server: the directory of \<open>abc12345\<close> records two
  screenshots, and the store in memory is empty.\<close>

definition restarted_world :: "page_call list world" where
  "restarted_world =
     \<lparr>sessions = Map.empty,
      session_dirs =
        [(session_dir_path ''abc12345'',
          \<lparr>metadata_json = Some (Parsed
              \<lparr>md_session_id = ''abc12345'', md_created_at = 1000000,
               md_browser_type = ''chromium'', md_headless = True, md_viewport = (1280, 720),
               md_record_video = False, md_status = ''active'', md_total_actions = 2,
               md_screenshots = [an_entry 1, an_entry 2], md_videos = [], md_traces = [],
               md_last_activity = 2000000,
               md_session_dir = session_dir_path ''abc12345''\<rparr>),
            videos_dir = Some []\<rparr>)],
      archived = []\<rparr>"

definition plain_action :: "string \<Rightarrow> sequence_action" where
  "plain_action tag =
     \<lparr>action = tag, url = None, selector = None, input_text = None, timeout = Some 5000,
      screenshot_after = Some False, wait_for_analysis = Some False\<rparr>"

text \<open>The number of calls of one kind in a run of \<open>add_*\<close> calls.\<close>

definition calls_of :: "asset_type \<Rightarrow> (time \<times> add_call) list \<Rightarrow> nat" where
  "calls_of k cs = length (filter (\<lambda>tc. kind_of (snd tc) = k) cs)"

text \<open>The state after two screenshots and one video have been added to \<open>abc12345\<close>.\<close>

definition busy_world :: "page_call list world" where
  "busy_world =
     add_assets ''abc12345''
       [(2000000, Add_screenshot ''manual'' ''screenshot'' []),
        (2500000, Add_video ''session_recording''),
        (3000000, Add_screenshot ''goto'' ''navigate to example.com'' ''https://example.com'')]
       fresh_world"

text \<open>Actions and engines for the runs below: a navigation, a click, two actions with
  tags the executor does not know (the second asks for a capture), an engine whose capture
  after step 0 raises and one whose capture for the checkpoint at step 1 raises, the tags the executor knows, the result it records for any other
  tag, and the part of an answer of \<open>execute_sequence\<close> the runs are compared on: its
  status, the number of step results and their statuses.\<close>

definition goto_example :: sequence_action where
  "goto_example = (plain_action ''goto'')\<lparr>url := Some ''https://example.com''\<rparr>"

definition click_example :: sequence_action where
  "click_example = (plain_action ''click'')\<lparr>selector := Some ''#btn''\<rparr>"

definition flaky_capture_engine :: "page_call list engine" where
  "flaky_capture_engine = engine_failing (\<lambda>c. c = Screenshot (step_path ''abc12345'' 0))"

definition no_analysis_capture_engine :: "page_call list engine" where
  "no_analysis_capture_engine =
     engine_failing (\<lambda>c. c = Screenshot (analysis_path ''abc12345'' 1))"

definition known_actions :: "string list" where
  "known_actions = [''goto'', ''click'', ''type'', ''wait'', ''wait_for_screenshot_analysis'']"

definition unknown_result :: "sequence_action \<Rightarrow> nat \<Rightarrow> step_result" where
  "unknown_result a i = (new_result a i ''error'')\<lparr>r_message := Some (''Unknown action: '' @ action a)\<rparr>"

definition hover_example :: sequence_action where
  "hover_example = plain_action ''hover''"

definition scroll_example :: sequence_action where
  "scroll_example = (plain_action ''scroll'')\<lparr>screenshot_after := Some True\<rparr>"

definition outcome :: "exn + sequence_response \<Rightarrow> exn + string \<times> nat \<times> string list" where
  "outcome r =
     (case r of
        Inl e \<Rightarrow> Inl e
      | Inr (Completed _ _ results _ _) \<Rightarrow> Inr (''completed'', length results, map r_status results)
      | Inr (Paused_for_analysis _ _ _ _ results) \<Rightarrow>
          Inr (''paused_for_analysis'', length results, map r_status results)
      | Inr (Error_response _ _ _ results _) \<Rightarrow> Inr (''error'', length results, map r_status results))"

text \<open>The session \<open>create_session\<close> has put into the store of \<open>fresh_world\<close>.\<close>

definition fresh_session_value :: "page_call list session" where
  "fresh_session_value =
     \<lparr>page = [], screenshots = [], videos = [], traces = [], created_at = 1000000,
      action_count = 0, last_activity = 1000000, recording_video = False,
      metadata =
        \<lparr>md_session_id = ''abc12345'', md_created_at = 1000000, md_browser_type = ''chromium'',
         md_headless = True, md_viewport = (1280, 720), md_record_video = False,
         md_status = ''active'', md_total_actions = 0, md_screenshots = [], md_videos = [],
         md_traces = [], md_last_activity = 1000000,
         md_session_dir = session_dir_path ''abc12345''\<rparr>\<rparr>"

text \<open>The state with a second session, \<open>beef0002\<close>, created at time 1500000 with video
  recording.\<close>

definition two_world :: "page_call list world" where
  "two_world =
     snd (create_session working_engine 1500000 ''beef0002'' ''firefox'' False 800 600 True
            fresh_world)"

section \<open>Properties\<close>

text \<open>The definitions that the runs on the states above unfold.\<close>

lemmas world_defs = fresh_world_def video_world_def empty_world_def restarted_world_def
  working_engine_def engine_failing_def offline_engine_def no_capture_engine_def dead_engine_def
  create_session_def create_session_directory_def save_session_metadata_def session_dir_path_def
  recordings_base_def persisted_count_def persisted_metadata_def Let_def

lemmas run_defs = execute_sequence_def apply_action_def new_result_def plain_action_def
  goto_example_def click_example_def analysis_path_def step_path_def error_path_def
  flaky_capture_engine_def no_analysis_capture_engine_def hover_example_def scroll_example_def

subsection \<open>Unknown session\<close>

text \<open>Claim C10: for a session id that is not in the store, \<open>add_screenshot\<close>,
  \<open>add_video\<close> and \<open>add_trace\<close> each return \<open>None\<close>, raise nothing and leave the whole
  state (store and disk) as it was.\<close>

theorem add_on_absent_session:
  assumes "sessions w session_id = None"
  shows "add_screenshot now session_id act descr u w = (Inr None, w)
       \<and> add_video now session_id descr w = (Inr None, w)
       \<and> add_trace now session_id descr w = (Inr None, w)"
  using assms by (simp add: add_screenshot_def add_video_def add_trace_def)

theorem add_on_absent_session_witness:
  "sessions restarted_world ''abc12345'' = None
   \<and> add_screenshot 3000000 ''abc12345'' ''manual'' ''screenshot'' [] restarted_world = (Inr None, restarted_world)
   \<and> add_video 3000000 ''abc12345'' ''session_recording'' restarted_world = (Inr None, restarted_world)
   \<and> add_trace 3000000 ''abc12345'' ''interaction_trace'' restarted_world = (Inr None, restarted_world)"
proof -
  have absent: "sessions restarted_world ''abc12345'' = None"
    by (simp add: restarted_world_def)
  from add_on_absent_session [OF absent] absent show ?thesis by blast
qed

subsection \<open>Closing a session\<close>

lemma close_session_removes:
  assumes "close_session eng now session_id w = (Inr r, w')"
  shows "sessions w' session_id = None"
  using assms
  by (auto simp: close_session_def Let_def split: option.splits prod.splits sum.splits)

lemma endpoint_closed:
  assumes "close_session_endpoint eng now session_id w = (Inr r, w')"
  shows "sessions w' session_id = None"
proof -
  from assms obtain u where "close_session eng now session_id w = (Inr u, w')"
    by (auto simp: close_session_endpoint_def split: option.splits prod.splits sum.splits)
  then show ?thesis by (rule close_session_removes)
qed

text \<open>Claim C7: closing an id that is not in the store answers with the 404
  \<open>HTTPException\<close> "Session not found" and changes nothing, and the manager's
  \<open>close_session\<close> returns without raising or changing anything; an id that has been closed
  successfully is such an id, so closing it again is answered with the same 404.\<close>

theorem close_unknown_session:
  "(sessions w session_id = None \<longrightarrow>
      close_session_endpoint eng now session_id w = (Inl (HTTPException 404 ''Session not found''), w)
      \<and> close_session eng now session_id w = (Inr (), w))
   \<and> (close_session_endpoint eng now session_id w = (Inr r, w') \<longrightarrow>
      close_session_endpoint eng now' session_id w' = (Inl (HTTPException 404 ''Session not found''), w'))"
proof (intro conjI impI)
  assume "sessions w session_id = None"
  then show "close_session_endpoint eng now session_id w = (Inl (HTTPException 404 ''Session not found''), w)"
    by (simp add: close_session_endpoint_def)
next
  assume "sessions w session_id = None"
  then show "close_session eng now session_id w = (Inr (), w)"
    by (simp add: close_session_def)
next
  assume "close_session_endpoint eng now session_id w = (Inr r, w')"
  then have "sessions w' session_id = None" by (rule endpoint_closed)
  then show "close_session_endpoint eng now' session_id w' = (Inl (HTTPException 404 ''Session not found''), w')"
    by (simp add: close_session_endpoint_def)
qed

theorem close_unknown_session_witness:
  "sessions restarted_world ''abc12345'' = None
   \<and> close_session_endpoint working_engine 3000000 ''abc12345'' restarted_world
       = (Inl (HTTPException 404 ''Session not found''), restarted_world)
   \<and> close_session working_engine 3000000 ''abc12345'' restarted_world = (Inr (), restarted_world)
   \<and> fst (close_session_endpoint working_engine 3000000 ''abc12345'' fresh_world) = Inr (''abc12345'', 3000000)
   \<and> close_session_endpoint working_engine 4000000 ''abc12345''
        (snd (close_session_endpoint working_engine 3000000 ''abc12345'' fresh_world))
       = (Inl (HTTPException 404 ''Session not found''),
          snd (close_session_endpoint working_engine 3000000 ''abc12345'' fresh_world))"
proof -
  have absent: "sessions restarted_world ''abc12345'' = None"
    by (simp add: restarted_world_def)
  have closes: "fst (close_session_endpoint working_engine 3000000 ''abc12345'' fresh_world) = Inr (''abc12345'', 3000000)"
    by (simp add: world_defs close_session_endpoint_def close_session_def finalize_video_def)
  then have eq: "close_session_endpoint working_engine 3000000 ''abc12345'' fresh_world
        = (Inr (''abc12345'', 3000000), snd (close_session_endpoint working_engine 3000000 ''abc12345'' fresh_world))"
    by (metis prod.collapse)
  from close_unknown_session [of restarted_world "''abc12345''" working_engine 3000000] absent
  have a: "close_session_endpoint working_engine 3000000 ''abc12345'' restarted_world
       = (Inl (HTTPException 404 ''Session not found''), restarted_world)
   \<and> close_session working_engine 3000000 ''abc12345'' restarted_world = (Inr (), restarted_world)"
    by blast
  from close_unknown_session [of fresh_world "''abc12345''" working_engine 3000000
      "(''abc12345'', 3000000)" "snd (close_session_endpoint working_engine 3000000 ''abc12345'' fresh_world)" 4000000] eq
  have b: "close_session_endpoint working_engine 4000000 ''abc12345''
        (snd (close_session_endpoint working_engine 3000000 ''abc12345'' fresh_world))
       = (Inl (HTTPException 404 ''Session not found''),
          snd (close_session_endpoint working_engine 3000000 ''abc12345'' fresh_world))"
    by blast
  from absent a closes b show ?thesis by blast
qed

subsection \<open>Formatted numbers\<close>

lemma fmt03d_values:
  "fmt03d (Suc 0) = ''001''" "fmt03d 1 = ''001''" "fmt03d 2 = ''002''" "fmt03d 3 = ''003''"
  by code_simp+

lemma dec_values:
  "dec 0 = ''0''" "dec (Suc 0) = ''1''" "dec 1 = ''1''" "dec 2 = ''2''"
  by code_simp+

lemmas add_defs = add_screenshot_def add_video_def add_trace_def get_next_sequence_number_def
  fmt03d_values replace_spaces_def

subsection \<open>Adding assets\<close>

lemma saved_is_persisted:
  assumes "save_session_metadata session_id md w = Inr w'"
  shows "persisted_metadata w' session_id = Some md \<and> sessions w' = sessions w
    \<and> archived w' = archived w"
  using assms
  by (auto simp: save_session_metadata_def persisted_metadata_def update_conv' split: option.splits)

lemma add_screenshot_effect:
  assumes "sessions w session_id = Some s"
    and "add_screenshot now session_id act descr u w = (Inr (Some path), w')"
  shows "\<exists>s' e. sessions w' session_id = Some s'
     \<and> md_screenshots (metadata s') = md_screenshots (metadata s) @ [e]
     \<and> md_videos (metadata s') = md_videos (metadata s)
     \<and> md_traces (metadata s') = md_traces (metadata s)
     \<and> filepath e = path \<and> sequence e = length (md_screenshots (metadata s)) + 1 \<and> timestamp e = now
     \<and> md_last_activity (metadata s') = now
     \<and> md_total_actions (metadata s') = md_total_actions (metadata s) + 1
     \<and> screenshots s' = screenshots s @ [path] \<and> last_activity s' = now
     \<and> persisted_metadata w' session_id = Some (metadata s')"
  using assms
  by (auto simp: add_screenshot_def get_next_sequence_number_def Let_def
           split: sum.splits dest!: saved_is_persisted)

lemma add_video_effect:
  assumes "sessions w session_id = Some s"
    and "add_video now session_id descr w = (Inr (Some path), w')"
  shows "\<exists>s' e. sessions w' session_id = Some s'
     \<and> md_videos (metadata s') = md_videos (metadata s) @ [e]
     \<and> md_screenshots (metadata s') = md_screenshots (metadata s)
     \<and> md_traces (metadata s') = md_traces (metadata s)
     \<and> filepath e = path \<and> sequence e = length (md_videos (metadata s)) + 1 \<and> timestamp e = now
     \<and> md_last_activity (metadata s') = now
     \<and> md_total_actions (metadata s') = md_total_actions (metadata s)
     \<and> videos s' = videos s @ [path] \<and> last_activity s' = last_activity s
     \<and> persisted_metadata w' session_id = Some (metadata s')"
  using assms
  by (auto simp: add_video_def get_next_sequence_number_def Let_def
           split: sum.splits dest!: saved_is_persisted)

lemma add_trace_effect:
  assumes "sessions w session_id = Some s"
    and "add_trace now session_id descr w = (Inr (Some path), w')"
  shows "\<exists>s' e. sessions w' session_id = Some s'
     \<and> md_traces (metadata s') = md_traces (metadata s) @ [e]
     \<and> md_screenshots (metadata s') = md_screenshots (metadata s)
     \<and> md_videos (metadata s') = md_videos (metadata s)
     \<and> filepath e = path \<and> sequence e = length (md_traces (metadata s)) + 1 \<and> timestamp e = now
     \<and> md_last_activity (metadata s') = now
     \<and> md_total_actions (metadata s') = md_total_actions (metadata s)
     \<and> traces s' = traces s @ [path] \<and> last_activity s' = last_activity s
     \<and> persisted_metadata w' session_id = Some (metadata s')"
  using assms
  by (auto simp: add_trace_def get_next_sequence_number_def Let_def
           split: sum.splits dest!: saved_is_persisted)

text \<open>Claim C6, as amended: a call of \<open>add_screenshot\<close>, \<open>add_video\<close> or \<open>add_trace\<close>
  that returns a path for a session in the store has appended one entry with that path and
  the next sequence number to the list of its kind, left the two other lists alone, set
  \<open>last_activity\<close> of the metadata to the time of the call, appended the path to the
  session's list of paths, and written the metadata to \<open>metadata.json\<close>, which holds
  exactly the metadata in memory when the call returns. \<open>total_actions\<close> goes up by one for
  a screenshot and stays as it is for a video and for a trace.\<close>

theorem add_asset_effect:
  assumes "sessions w session_id = Some s"
    and "add_asset now session_id c w = (Inr (Some path), w')"
  shows "\<exists>s' e. sessions w' session_id = Some s'
     \<and> assets (kind_of c) (metadata s') = assets (kind_of c) (metadata s) @ [e]
     \<and> (\<forall>k. k \<noteq> kind_of c \<longrightarrow> assets k (metadata s') = assets k (metadata s))
     \<and> filepath e = path \<and> sequence e = length (assets (kind_of c) (metadata s)) + 1
     \<and> timestamp e = now
     \<and> md_last_activity (metadata s') = now
     \<and> md_total_actions (metadata s') =
           (if kind_of c = Screenshots then md_total_actions (metadata s) + 1
            else md_total_actions (metadata s))
     \<and> (case kind_of c of
           Screenshots \<Rightarrow> screenshots s' = screenshots s @ [path]
         | Videos \<Rightarrow> videos s' = videos s @ [path]
         | Traces \<Rightarrow> traces s' = traces s @ [path])
     \<and> persisted_metadata w' session_id = Some (metadata s')"
proof (cases c)
  case (Add_screenshot act descr u)
  with assms add_screenshot_effect [of w session_id s now act descr u path w']
  obtain s' e where "sessions w' session_id = Some s'
     \<and> md_screenshots (metadata s') = md_screenshots (metadata s) @ [e]
     \<and> md_videos (metadata s') = md_videos (metadata s)
     \<and> md_traces (metadata s') = md_traces (metadata s)
     \<and> filepath e = path \<and> sequence e = length (md_screenshots (metadata s)) + 1 \<and> timestamp e = now
     \<and> md_last_activity (metadata s') = now
     \<and> md_total_actions (metadata s') = md_total_actions (metadata s) + 1
     \<and> screenshots s' = screenshots s @ [path] \<and> last_activity s' = now
     \<and> persisted_metadata w' session_id = Some (metadata s')"
    by auto
  with Add_screenshot show ?thesis
    by (intro exI [of _ s'] exI [of _ e]) (auto, case_tac k, auto)
next
  case (Add_video descr)
  with assms add_video_effect [of w session_id s now descr path w']
  obtain s' e where "sessions w' session_id = Some s'
     \<and> md_videos (metadata s') = md_videos (metadata s) @ [e]
     \<and> md_screenshots (metadata s') = md_screenshots (metadata s)
     \<and> md_traces (metadata s') = md_traces (metadata s)
     \<and> filepath e = path \<and> sequence e = length (md_videos (metadata s)) + 1 \<and> timestamp e = now
     \<and> md_last_activity (metadata s') = now
     \<and> md_total_actions (metadata s') = md_total_actions (metadata s)
     \<and> videos s' = videos s @ [path] \<and> last_activity s' = last_activity s
     \<and> persisted_metadata w' session_id = Some (metadata s')"
    by auto
  with Add_video show ?thesis
    by (intro exI [of _ s'] exI [of _ e]) (auto, case_tac k, auto)
next
  case (Add_trace descr)
  with assms add_trace_effect [of w session_id s now descr path w']
  obtain s' e where "sessions w' session_id = Some s'
     \<and> md_traces (metadata s') = md_traces (metadata s) @ [e]
     \<and> md_screenshots (metadata s') = md_screenshots (metadata s)
     \<and> md_videos (metadata s') = md_videos (metadata s)
     \<and> filepath e = path \<and> sequence e = length (md_traces (metadata s)) + 1 \<and> timestamp e = now
     \<and> md_last_activity (metadata s') = now
     \<and> md_total_actions (metadata s') = md_total_actions (metadata s)
     \<and> traces s' = traces s @ [path] \<and> last_activity s' = last_activity s
     \<and> persisted_metadata w' session_id = Some (metadata s')"
    by auto
  with Add_trace show ?thesis
    by (intro exI [of _ s'] exI [of _ e]) (auto, case_tac k, auto)
qed

text \<open>Claim C6 as stated fails: \<open>add_video\<close> returns a path and leaves
  \<open>total_actions\<close> at 0, in memory and on disk.\<close>

theorem add_video_keeps_action_counter:
  "fst (add_video 2000000 ''abc12345'' ''session_recording'' fresh_world)
     = Inr (Some ''/opt/code-server/recordings/sessions/session_abc12345/videos/001_session_recording.webm'')
   \<and> map_option md_total_actions (map_option metadata (sessions fresh_world ''abc12345'')) = Some 0
   \<and> map_option md_total_actions
        (map_option metadata
           (sessions (snd (add_video 2000000 ''abc12345'' ''session_recording'' fresh_world))
              ''abc12345''))
      = Some 0
   \<and> map_option md_total_actions
        (persisted_metadata (snd (add_video 2000000 ''abc12345'' ''session_recording'' fresh_world)) ''abc12345'')
      \<noteq> Some 1"
  by (simp add: world_defs add_defs)

lemma add_asset_sequences:
  assumes "sessions w session_id = Some s"
  shows "\<exists>s'. sessions (snd (add_asset now session_id c w)) session_id = Some s'
     \<and> (\<forall>k. map sequence (assets k (metadata s')) =
            map sequence (assets k (metadata s)) @
              (if k = kind_of c then [Suc (length (assets k (metadata s)))] else []))"
proof (cases c)
  case (Add_screenshot act descr u)
  with assms show ?thesis
    apply (simp add: add_screenshot_def get_next_sequence_number_def Let_def save_session_metadata_def split: option.splits)
    apply (intro conjI impI allI)
    apply (case_tac k; simp)+
    done
next
  case (Add_video descr)
  with assms show ?thesis
    apply (simp add: add_video_def get_next_sequence_number_def Let_def save_session_metadata_def split: option.splits)
    apply (intro conjI impI allI)
    apply (case_tac k; simp)+
    done
next
  case (Add_trace descr)
  with assms show ?thesis
    apply (simp add: add_trace_def get_next_sequence_number_def Let_def save_session_metadata_def split: option.splits)
    apply (intro conjI impI allI)
    apply (case_tac k; simp)+
    done
qed

lemma upt_first: "[Suc n ..< Suc n + Suc m] = Suc n # [Suc (Suc n) ..< Suc (Suc n) + m]"
  by (simp add: upt_conv_Cons del: upt_Suc)

lemma add_assets_sequences:
  assumes "sessions w session_id = Some s"
  shows "\<exists>s'. sessions (add_assets session_id cs w) session_id = Some s'
     \<and> (\<forall>k. map sequence (assets k (metadata s')) =
            map sequence (assets k (metadata s)) @
              [Suc (length (assets k (metadata s))) ..<
                 Suc (length (assets k (metadata s))) + calls_of k cs])"
  using assms
proof (induction cs arbitrary: w s)
  case Nil
  then show ?case by (simp add: calls_of_def)
next
  case (Cons tc cs)
  obtain now c where tc: "tc = (now, c)" by (cases tc)
  from add_asset_sequences [OF Cons.prems, of now c]
  obtain s1 where s1: "sessions (snd (add_asset now session_id c w)) session_id = Some s1"
    and seq1: "\<And>k. map sequence (assets k (metadata s1)) =
            map sequence (assets k (metadata s)) @
              (if k = kind_of c then [Suc (length (assets k (metadata s)))] else [])"
    by blast
  from Cons.IH [OF s1]
  obtain s' where s': "sessions (add_assets session_id cs (snd (add_asset now session_id c w))) session_id = Some s'"
    and seq': "\<And>k. map sequence (assets k (metadata s')) =
            map sequence (assets k (metadata s1)) @
              [Suc (length (assets k (metadata s1))) ..<
                 Suc (length (assets k (metadata s1))) + calls_of k cs]"
    by blast
  have len: "\<And>k. length (assets k (metadata s1)) =
      length (assets k (metadata s)) + (if k = kind_of c then 1 else 0)"
  proof -
    fix k
    have "length (map sequence (assets k (metadata s1))) =
        length (map sequence (assets k (metadata s)) @
              (if k = kind_of c then [Suc (length (assets k (metadata s)))] else []))"
      by (simp only: seq1)
    then show "length (assets k (metadata s1)) =
      length (assets k (metadata s)) + (if k = kind_of c then 1 else 0)"
      by (simp split: if_splits)
  qed
  show ?case
  proof (intro exI [of _ s'] conjI allI)
    show "sessions (add_assets session_id (tc # cs) w) session_id = Some s'"
      using s' tc by simp
  next
    fix k
    show "map sequence (assets k (metadata s')) =
            map sequence (assets k (metadata s)) @
              [Suc (length (assets k (metadata s))) ..<
                 Suc (length (assets k (metadata s))) + calls_of k (tc # cs)]"
    proof (cases "k = kind_of c")
      case True
      then have cnt: "calls_of k (tc # cs) = Suc (calls_of k cs)"
        using tc by (simp add: calls_of_def)
      from True have l1: "length (assets k (metadata s1)) = Suc (length (assets k (metadata s)))"
        using len [of k] by simp
      from True have m1: "map sequence (assets k (metadata s1)) =
            map sequence (assets k (metadata s)) @ [Suc (length (assets k (metadata s)))]"
        using seq1 [of k] by simp
      show ?thesis
        unfolding cnt upt_first seq' [of k] l1 m1 by simp
    next
      case False
      then show ?thesis
        using seq' [of k] seq1 [of k] len [of k] tc
        by (simp add: calls_of_def)
    qed
  qed
qed

lemma add_screenshot_names:
  assumes "sessions w session_id = Some s"
  shows "\<exists>s'. sessions (snd (add_screenshot now session_id act descr u w)) session_id = Some s'
     \<and> map filename (md_screenshots (metadata s')) =
         map filename (md_screenshots (metadata s)) @
           [replace_spaces (fmt03d (Suc (length (md_screenshots (metadata s)))) @ ''_'' @ act @ ''_'' @ descr @ ''.png'')]"
  using assms
  by (simp add: add_screenshot_def get_next_sequence_number_def Let_def save_session_metadata_def
           split: option.splits)

lemma three_screenshots:
  assumes "sessions w session_id = Some s" and "md_screenshots (metadata s) = []"
  shows "\<exists>s'. sessions (add_assets session_id
                 [(t1, Add_screenshot a1 d1 u1), (t2, Add_screenshot a2 d2 u2),
                  (t3, Add_screenshot a3 d3 u3)] w) session_id = Some s'
     \<and> map (\<lambda>e. take 3 (filename e)) (md_screenshots (metadata s')) = [''001'', ''002'', ''003'']"
proof -
  let ?w1 = "snd (add_screenshot t1 session_id a1 d1 u1 w)"
  let ?w2 = "snd (add_screenshot t2 session_id a2 d2 u2 ?w1)"
  let ?w3 = "snd (add_screenshot t3 session_id a3 d3 u3 ?w2)"
  from add_screenshot_names [OF assms(1), of t1 a1 d1 u1] assms(2)
  obtain s1 where s1: "sessions ?w1 session_id = Some s1"
    and n1: "map filename (md_screenshots (metadata s1)) =
       [replace_spaces (fmt03d (Suc 0) @ ''_'' @ a1 @ ''_'' @ d1 @ ''.png'')]"
    by auto
  from n1 have l1: "length (md_screenshots (metadata s1)) = 1"
    by (metis length_map length_Cons list.size(3) One_nat_def)
  from add_screenshot_names [OF s1, of t2 a2 d2 u2] n1 l1
  obtain s2 where s2: "sessions ?w2 session_id = Some s2"
    and n2: "map filename (md_screenshots (metadata s2)) =
       [replace_spaces (fmt03d (Suc 0) @ ''_'' @ a1 @ ''_'' @ d1 @ ''.png''),
        replace_spaces (fmt03d 2 @ ''_'' @ a2 @ ''_'' @ d2 @ ''.png'')]"
    by (auto simp: numeral_2_eq_2)
  from n2 have l2: "length (md_screenshots (metadata s2)) = 2"
    by (metis length_map length_Cons list.size(3) One_nat_def Suc_1)
  from add_screenshot_names [OF s2, of t3 a3 d3 u3] n2 l2
  obtain s3 where s3: "sessions ?w3 session_id = Some s3"
    and n3: "map filename (md_screenshots (metadata s3)) =
       [replace_spaces (fmt03d (Suc 0) @ ''_'' @ a1 @ ''_'' @ d1 @ ''.png''),
        replace_spaces (fmt03d 2 @ ''_'' @ a2 @ ''_'' @ d2 @ ''.png''),
        replace_spaces (fmt03d 3 @ ''_'' @ a3 @ ''_'' @ d3 @ ''.png'')]"
    by (auto simp: numeral_3_eq_3 numeral_2_eq_2)
  have "map (\<lambda>e. take 3 (filename e)) (md_screenshots (metadata s3)) =
      map (take 3) (map filename (md_screenshots (metadata s3)))"
    by simp
  also have "\<dots> = [''001'', ''002'', ''003'']"
    unfolding n3 by (simp add: fmt03d_values replace_spaces_def)
  finally show ?thesis using s3 by simp
qed

text \<open>Claim C4: after any run of \<open>add_*\<close> calls on a session in the store, in any
  interleaving of the kinds, the sequence numbers recorded for each kind are those recorded
  before followed by the next numbers in order, one per call of that kind, without gap or
  repetition; from empty lists, as \<open>create_session\<close> leaves them, they are
  \<open>1, 2, ..., n\<close>. Three screenshots added to a session without screenshots give three
  entries, in this order, whose file names begin with 001, 002 and 003.\<close>

theorem sequence_numbers_gapless:
  assumes "sessions w session_id = Some s"
  shows "\<exists>s'. sessions (add_assets session_id cs w) session_id = Some s'
     \<and> (\<forall>k. map sequence (assets k (metadata s')) =
            map sequence (assets k (metadata s)) @
              [Suc (length (assets k (metadata s))) ..<
                 Suc (length (assets k (metadata s))) + calls_of k cs])
     \<and> (\<forall>k. assets k (metadata s) = [] \<longrightarrow>
            map sequence (assets k (metadata s')) = [1 ..< Suc (calls_of k cs)])
     \<and> (md_screenshots (metadata s) = [] \<and>
          cs = [(t1, Add_screenshot a1 d1 u1), (t2, Add_screenshot a2 d2 u2),
                (t3, Add_screenshot a3 d3 u3)] \<longrightarrow>
          map (\<lambda>e. take 3 (filename e)) (md_screenshots (metadata s')) = [''001'', ''002'', ''003'']
          \<and> map sequence (md_screenshots (metadata s')) = [1, 2, 3])"
proof -
  from add_assets_sequences [OF assms, of cs]
  obtain s' where s': "sessions (add_assets session_id cs w) session_id = Some s'"
    and seq: "\<And>k. map sequence (assets k (metadata s')) =
            map sequence (assets k (metadata s)) @
              [Suc (length (assets k (metadata s))) ..<
                 Suc (length (assets k (metadata s))) + calls_of k cs]"
    by blast
  have fresh: "map sequence (assets k (metadata s')) = [1 ..< Suc (calls_of k cs)]"
    if "assets k (metadata s) = []" for k
    using seq [of k] that by simp
  have scenario: "map (\<lambda>e. take 3 (filename e)) (md_screenshots (metadata s')) = [''001'', ''002'', ''003'']
          \<and> map sequence (md_screenshots (metadata s')) = [1, 2, 3]"
    if empty: "md_screenshots (metadata s) = []"
      and cs: "cs = [(t1, Add_screenshot a1 d1 u1), (t2, Add_screenshot a2 d2 u2),
                (t3, Add_screenshot a3 d3 u3)]"
  proof -
    from three_screenshots [OF assms empty, of t1 a1 d1 u1 t2 a2 d2 u2 t3 a3 d3 u3] s' cs
    have names: "map (\<lambda>e. take 3 (filename e)) (md_screenshots (metadata s')) = [''001'', ''002'', ''003'']"
      by auto
    have "calls_of Screenshots cs = 3" using cs by (simp add: calls_of_def)
    with fresh [of Screenshots] empty
    have "map sequence (md_screenshots (metadata s')) = [1 ..< 4]" by simp
    also have "[1 ..< 4] = [1, 2, 3::nat]" by (simp add: upt_rec)
    finally show ?thesis using names by simp
  qed
  show ?thesis
  proof (intro exI [of _ s'] conjI allI impI)
    show "sessions (add_assets session_id cs w) session_id = Some s'" by (rule s')
  next
    fix k
    show "map sequence (assets k (metadata s')) =
            map sequence (assets k (metadata s)) @
              [Suc (length (assets k (metadata s))) ..<
                 Suc (length (assets k (metadata s))) + calls_of k cs]"
      by (rule seq)
  next
    fix k
    assume "assets k (metadata s) = []"
    then show "map sequence (assets k (metadata s')) = [1 ..< Suc (calls_of k cs)]"
      by (rule fresh)
  next
    assume h: "md_screenshots (metadata s) = [] \<and>
          cs = [(t1, Add_screenshot a1 d1 u1), (t2, Add_screenshot a2 d2 u2),
                (t3, Add_screenshot a3 d3 u3)]"
    then show "map (\<lambda>e. take 3 (filename e)) (md_screenshots (metadata s')) = [''001'', ''002'', ''003'']"
      using scenario by blast
    from h show "map sequence (md_screenshots (metadata s')) = [1, 2, 3]"
      using scenario by blast
  qed
qed

lemma fresh_world_session: "sessions fresh_world ''abc12345'' = Some fresh_session_value"
  by (simp add: world_defs fresh_session_value_def)

lemma fresh_session:
  "map_option (\<lambda>s. (md_screenshots (metadata s), md_videos (metadata s), md_traces (metadata s),
        md_total_actions (metadata s)))
     (sessions fresh_world ''abc12345'') = Some ([], [], [], 0)"
  by (simp add: world_defs)

theorem sequence_numbers_gapless_witness:
  "sessions fresh_world ''abc12345'' \<noteq> None
   \<and> map_option (\<lambda>s. map sequence (md_screenshots (metadata s)))
        (sessions (add_assets ''abc12345''
           [(2000000, Add_screenshot ''manual'' ''screenshot'' []),
            (2500000, Add_screenshot ''manual'' ''screenshot'' []),
            (3000000, Add_screenshot ''manual'' ''screenshot'' [])] fresh_world) ''abc12345'')
      = Some [1, 2, 3]
   \<and> map_option (\<lambda>s. map (\<lambda>e. take 3 (filename e)) (md_screenshots (metadata s)))
        (sessions (add_assets ''abc12345''
           [(2000000, Add_screenshot ''manual'' ''screenshot'' []),
            (2500000, Add_screenshot ''manual'' ''screenshot'' []),
            (3000000, Add_screenshot ''manual'' ''screenshot'' [])] fresh_world) ''abc12345'')
      = Some [''001'', ''002'', ''003'']"
proof -
  let ?cs = "[(2000000, Add_screenshot ''manual'' ''screenshot'' []),
            (2500000, Add_screenshot ''manual'' ''screenshot'' []),
            (3000000::nat, Add_screenshot ''manual'' ''screenshot'' [])]"
  from fresh_session obtain s where s: "sessions fresh_world ''abc12345'' = Some s"
    and e: "md_screenshots (metadata s) = []"
    by auto
  from sequence_numbers_gapless [OF s, of ?cs 2000000 "''manual''" "''screenshot''" "[]"
      2500000 "''manual''" "''screenshot''" "[]" 3000000 "''manual''" "''screenshot''" "[]"]
  obtain s' where "sessions (add_assets ''abc12345'' ?cs fresh_world) ''abc12345'' = Some s'"
    and imp: "md_screenshots (metadata s) = [] \<and> ?cs = ?cs \<longrightarrow>
       map (\<lambda>e. take 3 (filename e)) (md_screenshots (metadata s')) = [''001'', ''002'', ''003'']
       \<and> map sequence (md_screenshots (metadata s')) = [1, 2, 3]"
    by (elim exE conjE) (rule that)
  moreover from imp e
  have "map (\<lambda>e. take 3 (filename e)) (md_screenshots (metadata s')) = [''001'', ''002'', ''003'']"
    and "map sequence (md_screenshots (metadata s')) = [1, 2, 3]"
    by blast+
  ultimately show ?thesis using s by simp
qed

theorem add_asset_effect_witness:
  "sessions fresh_world ''abc12345'' \<noteq> None
   \<and> fst (add_asset 2000000 ''abc12345'' (Add_video ''session_recording'') fresh_world)
       = Inr (Some ''/opt/code-server/recordings/sessions/session_abc12345/videos/001_session_recording.webm'')
   \<and> map_option (\<lambda>s. (length (md_videos (metadata s)), md_last_activity (metadata s),
                       md_total_actions (metadata s)))
        (sessions (snd (add_asset 2000000 ''abc12345'' (Add_video ''session_recording'') fresh_world))
           ''abc12345'')
      = Some (1, 2000000, 0)
   \<and> map_option metadata
        (sessions (snd (add_asset 2000000 ''abc12345'' (Add_video ''session_recording'') fresh_world))
           ''abc12345'')
      = persisted_metadata
          (snd (add_asset 2000000 ''abc12345'' (Add_video ''session_recording'') fresh_world))
          ''abc12345''"
proof -
  let ?path = "''/opt/code-server/recordings/sessions/session_abc12345/videos/001_session_recording.webm''"
  let ?w' = "snd (add_asset 2000000 ''abc12345'' (Add_video ''session_recording'') fresh_world)"
  from fresh_session obtain s where s: "sessions fresh_world ''abc12345'' = Some s"
    and e: "md_videos (metadata s) = []" "md_total_actions (metadata s) = 0"
    by auto
  have r: "fst (add_asset 2000000 ''abc12345'' (Add_video ''session_recording'') fresh_world)
       = Inr (Some ?path)"
    by (simp add: world_defs add_defs)
  then have eq: "add_asset 2000000 ''abc12345'' (Add_video ''session_recording'') fresh_world
       = (Inr (Some ?path), ?w')"
    by (metis prod.collapse)
  from add_asset_effect [OF s eq] e
  obtain s' where "sessions ?w' ''abc12345'' = Some s'"
    and "length (md_videos (metadata s')) = 1"
    and "md_last_activity (metadata s') = 2000000"
    and "md_total_actions (metadata s') = 0"
    and "persisted_metadata ?w' ''abc12345'' = Some (metadata s')"
    by auto
  with s r show ?thesis by simp
qed

subsection \<open>Sequence numbers of a session in the store\<close>

lemma add_asset_parts:
  assumes "sessions w sid = Some s"
    and "add_asset now sid c w = (Inr (Some path), w')"
  shows "\<exists>s' e. sessions w' sid = Some s'
     \<and> assets (kind_of c) (metadata s') = assets (kind_of c) (metadata s) @ [e]
     \<and> filepath e = path \<and> sequence e = length (assets (kind_of c) (metadata s)) + 1
     \<and> persisted_metadata w' sid = Some (metadata s')"
proof (cases c)
  case (Add_screenshot act descr u)
  with assms add_screenshot_effect [of w sid s now act descr u path w'] show ?thesis
    by auto
next
  case (Add_video descr)
  with assms add_video_effect [of w sid s now descr path w'] show ?thesis
    by auto
next
  case (Add_trace descr)
  with assms add_trace_effect [of w sid s now descr path w'] show ?thesis
    by auto
qed

text \<open>Claim C3, as amended: for a session in the store the next sequence number of a kind
  is the length of that kind's list in the metadata in memory plus one, which is the
  persisted count plus one whenever \<open>metadata.json\<close> holds the same metadata. An \<open>add_*\<close>
  call on such a session that returns a path has appended one entry that carries this
  number, has left the session in the store and \<open>metadata.json\<close> equal to the metadata in
  memory, so that the persisted count is now that number and the next number is one more;
  when the numbers recorded for the kind were \<open>1, ..., n\<close> before the call, the new number
  is none of them and the numbers recorded after it are \<open>1, ..., n + 1\<close>. For a session
  that is not in the store the next number is 1, whatever the disk records, and the
  \<open>add_*\<close> methods return \<open>None\<close> and change nothing.\<close>

theorem sequence_numbers_while_in_store:
  "(sessions w sid = Some s \<longrightarrow>
      get_next_sequence_number w sid k = length (assets k (metadata s)) + 1)
   \<and> (sessions w sid = Some s \<and> persisted_metadata w sid = Some (metadata s) \<longrightarrow>
      Some (get_next_sequence_number w sid k) = map_option Suc (persisted_count w sid k))
   \<and> (sessions w sid = Some s \<and> add_asset now sid c w = (Inr (Some path), w') \<longrightarrow>
      (\<exists>s' e. sessions w' sid = Some s'
         \<and> persisted_metadata w' sid = Some (metadata s')
         \<and> assets (kind_of c) (metadata s') = assets (kind_of c) (metadata s) @ [e]
         \<and> filepath e = path
         \<and> sequence e = get_next_sequence_number w sid (kind_of c)
         \<and> persisted_count w' sid (kind_of c) = Some (sequence e)
         \<and> get_next_sequence_number w' sid (kind_of c) = sequence e + 1
         \<and> (map sequence (assets (kind_of c) (metadata s)) =
               [1 ..< Suc (length (assets (kind_of c) (metadata s)))] \<longrightarrow>
             sequence e \<notin> set (map sequence (assets (kind_of c) (metadata s)))
             \<and> map sequence (assets (kind_of c) (metadata s')) =
                 [1 ..< Suc (length (assets (kind_of c) (metadata s')))])))
   \<and> (sessions w sid = None \<longrightarrow>
      get_next_sequence_number w sid k = 1 \<and> add_asset now sid c w = (Inr None, w))"
proof (intro conjI impI)
  assume "sessions w sid = Some s"
  then show "get_next_sequence_number w sid k = length (assets k (metadata s)) + 1"
    by (simp add: get_next_sequence_number_def)
next
  assume "sessions w sid = Some s \<and> persisted_metadata w sid = Some (metadata s)"
  then show "Some (get_next_sequence_number w sid k) = map_option Suc (persisted_count w sid k)"
    by (simp add: get_next_sequence_number_def persisted_count_def)
next
  assume h: "sessions w sid = Some s \<and> add_asset now sid c w = (Inr (Some path), w')"
  then have s: "sessions w sid = Some s" and a: "add_asset now sid c w = (Inr (Some path), w')"
    by simp_all
  let ?k = "kind_of c"
  let ?n = "length (assets ?k (metadata s))"
  from add_asset_parts [OF s a]
  obtain s' e where s': "sessions w' sid = Some s'"
    and app: "assets ?k (metadata s') = assets ?k (metadata s) @ [e]"
    and fp: "filepath e = path" and sq: "sequence e = ?n + 1"
    and pm: "persisted_metadata w' sid = Some (metadata s')"
    by blast
  have g: "sequence e = get_next_sequence_number w sid ?k"
    using s sq by (simp add: get_next_sequence_number_def)
  have pc: "persisted_count w' sid ?k = Some (sequence e)"
    using pm app sq by (simp add: persisted_count_def)
  have nx: "get_next_sequence_number w' sid ?k = sequence e + 1"
    using s' app sq by (simp add: get_next_sequence_number_def)
  have inv: "sequence e \<notin> set (map sequence (assets ?k (metadata s)))
             \<and> map sequence (assets ?k (metadata s')) = [1 ..< Suc (length (assets ?k (metadata s')))]"
    if w: "map sequence (assets ?k (metadata s)) = [1 ..< Suc ?n]"
  proof -
    have "sequence e \<notin> set [1 ..< Suc ?n]" using sq by simp
    moreover have "map sequence (assets ?k (metadata s')) = [1 ..< Suc ?n] @ [Suc ?n]"
      using app sq w by simp
    moreover have "[1 ..< Suc ?n] @ [Suc ?n] = [1 ..< Suc (Suc ?n)]" by simp
    ultimately show ?thesis using w app by simp
  qed
  show "\<exists>s' e. sessions w' sid = Some s'
         \<and> persisted_metadata w' sid = Some (metadata s')
         \<and> assets (kind_of c) (metadata s') = assets (kind_of c) (metadata s) @ [e]
         \<and> filepath e = path
         \<and> sequence e = get_next_sequence_number w sid (kind_of c)
         \<and> persisted_count w' sid (kind_of c) = Some (sequence e)
         \<and> get_next_sequence_number w' sid (kind_of c) = sequence e + 1
         \<and> (map sequence (assets (kind_of c) (metadata s)) =
               [1 ..< Suc (length (assets (kind_of c) (metadata s)))] \<longrightarrow>
             sequence e \<notin> set (map sequence (assets (kind_of c) (metadata s)))
             \<and> map sequence (assets (kind_of c) (metadata s')) =
                 [1 ..< Suc (length (assets (kind_of c) (metadata s')))])"
    using s' pm app fp g pc nx inv by (intro exI [of _ s'] exI [of _ e]) blast
next
  assume "sessions w sid = None"
  then show "get_next_sequence_number w sid k = 1"
    by (simp add: get_next_sequence_number_def)
next
  assume "sessions w sid = None"
  then show "add_asset now sid c w = (Inr None, w)"
    by (cases c) (simp_all add: add_screenshot_def add_video_def add_trace_def)
qed


lemma fmt03d_three: "fmt03d (Suc (Suc (Suc 0))) = ''003''"
  by code_simp

theorem sequence_numbers_while_in_store_witness:
  "sessions busy_world ''abc12345'' \<noteq> None
   \<and> map_option metadata (sessions busy_world ''abc12345'') = persisted_metadata busy_world ''abc12345''
   \<and> map sequence (assets Screenshots (metadata (the (sessions busy_world ''abc12345'')))) = [1, 2]
   \<and> get_next_sequence_number busy_world ''abc12345'' Screenshots = 3
   \<and> persisted_count busy_world ''abc12345'' Screenshots = Some 2
   \<and> fst (add_asset 4000000 ''abc12345'' (Add_screenshot ''click'' ''press'' []) busy_world)
       = Inr (Some ''/opt/code-server/recordings/sessions/session_abc12345/screenshots/003_click_press.png'')
   \<and> persisted_count (snd (add_asset 4000000 ''abc12345'' (Add_screenshot ''click'' ''press'' []) busy_world))
         ''abc12345'' Screenshots = Some 3
   \<and> get_next_sequence_number (snd (add_asset 4000000 ''abc12345'' (Add_screenshot ''click'' ''press'' []) busy_world))
         ''abc12345'' Screenshots = 4
   \<and> map sequence (assets Screenshots (metadata (the (sessions
         (snd (add_asset 4000000 ''abc12345'' (Add_screenshot ''click'' ''press'' []) busy_world)) ''abc12345''))))
       = [1, 2, 3]
   \<and> sessions restarted_world ''abc12345'' = None
   \<and> get_next_sequence_number restarted_world ''abc12345'' Screenshots = 1
   \<and> add_asset 3000000 ''abc12345'' (Add_screenshot ''manual'' ''screenshot'' []) restarted_world
       = (Inr None, restarted_world)"
proof -
  let ?c = "Add_screenshot ''click'' ''press'' []"
  let ?path = "''/opt/code-server/recordings/sessions/session_abc12345/screenshots/003_click_press.png''"
  let ?w' = "snd (add_asset 4000000 ''abc12345'' ?c busy_world)"
  have mirror: "map_option metadata (sessions busy_world ''abc12345'') = persisted_metadata busy_world ''abc12345''"
    by (simp add: busy_world_def world_defs add_defs)
  have present: "sessions busy_world ''abc12345'' \<noteq> None"
    by (simp add: busy_world_def world_defs add_defs)
  then obtain s where s: "sessions busy_world ''abc12345'' = Some s" by blast
  with mirror have p: "persisted_metadata busy_world ''abc12345'' = Some (metadata s)" by simp
  have numbered: "map sequence (assets Screenshots (metadata (the (sessions busy_world ''abc12345'')))) = [1, 2]"
    by (simp add: busy_world_def world_defs add_defs)
  with s have numbered_s: "map sequence (assets Screenshots (metadata s)) = [1, 2]" by simp
  then have len: "length (assets Screenshots (metadata s)) = 2"
    by (metis length_map length_Cons list.size(3) numeral_2_eq_2)
  have added: "fst (add_asset 4000000 ''abc12345'' ?c busy_world) = Inr (Some ?path)"
    by (simp add: busy_world_def world_defs add_defs fmt03d_three)
  then have run: "add_asset 4000000 ''abc12345'' ?c busy_world = (Inr (Some ?path), ?w')"
    by (metis prod.collapse)
  note inst = sequence_numbers_while_in_store [where w = busy_world and sid = "''abc12345''"
      and s = s and k = Screenshots and c = ?c and now = 4000000 and path = ?path and w' = ?w']
  from inst s len have three: "get_next_sequence_number busy_world ''abc12345'' Screenshots = 3"
    by simp
  from inst s p three have two: "persisted_count busy_world ''abc12345'' Screenshots = Some 2"
    by (cases "persisted_count busy_world ''abc12345'' Screenshots") auto
  note ex = inst [THEN conjunct2, THEN conjunct2, THEN conjunct1, THEN mp, OF conjI, OF s run]
  from ex obtain s' e where s': "sessions ?w' ''abc12345'' = Some s'"
      and e: "sequence e = get_next_sequence_number busy_world ''abc12345'' (kind_of ?c)"
      and pc: "persisted_count ?w' ''abc12345'' (kind_of ?c) = Some (sequence e)"
      and nx: "get_next_sequence_number ?w' ''abc12345'' (kind_of ?c) = sequence e + 1"
      and app: "assets (kind_of ?c) (metadata s') = assets (kind_of ?c) (metadata s) @ [e]"
      and fresh: "map sequence (assets (kind_of ?c) (metadata s)) =
               [1 ..< Suc (length (assets (kind_of ?c) (metadata s)))] \<longrightarrow>
             sequence e \<notin> set (map sequence (assets (kind_of ?c) (metadata s)))
             \<and> map sequence (assets (kind_of ?c) (metadata s')) =
                 [1 ..< Suc (length (assets (kind_of ?c) (metadata s')))]"
    by (elim exE conjE) (rule that)
  from e three have e3: "sequence e = 3" by simp
  from pc e3 have pc3: "persisted_count ?w' ''abc12345'' Screenshots = Some 3" by simp
  from nx e3 have nx4: "get_next_sequence_number ?w' ''abc12345'' Screenshots = 4" by simp
  have upt2: "[1 ..< Suc 2] = [1, 2::nat]" by (simp add: upt_rec)
  have upt3: "[1 ..< Suc 3] = [1, 2, 3::nat]" by (simp add: upt_rec)
  from app len have len': "length (assets Screenshots (metadata s')) = 3" by simp
  have k: "kind_of ?c = Screenshots" by simp
  have hyp: "map sequence (assets (kind_of ?c) (metadata s)) =
      [1 ..< Suc (length (assets (kind_of ?c) (metadata s)))]"
    unfolding k numbered_s len by (simp add: upt_rec)
  from fresh hyp have "sequence e \<notin> set (map sequence (assets (kind_of ?c) (metadata s)))
       \<and> map sequence (assets (kind_of ?c) (metadata s')) =
           [1 ..< Suc (length (assets (kind_of ?c) (metadata s')))]"
    by (rule mp)
  then have "map sequence (assets Screenshots (metadata s')) = [1 ..< Suc 3]"
    unfolding k len' by (rule conjunct2)
  then have new: "map sequence (assets Screenshots (metadata s')) = [1, 2, 3]"
    unfolding upt3 .
  with s' have new': "map sequence (assets Screenshots (metadata (the (sessions ?w' ''abc12345'')))) = [1, 2, 3]"
    by simp
  have absent: "sessions restarted_world ''abc12345'' = None"
    by (simp add: restarted_world_def)
  with sequence_numbers_while_in_store [where w = restarted_world and sid = "''abc12345''"
      and k = Screenshots and c = "Add_screenshot ''manual'' ''screenshot'' []" and now = 3000000]
  have one: "get_next_sequence_number restarted_world ''abc12345'' Screenshots = 1
     \<and> add_asset 3000000 ''abc12345'' (Add_screenshot ''manual'' ''screenshot'' []) restarted_world
       = (Inr None, restarted_world)"
    by simp
  from present mirror numbered three two added pc3 nx4 new' absent one show ?thesis by blast
qed

text \<open>Claim C3 as stated fails: after a restart the directory of \<open>abc12345\<close> records two
  screenshots, and the next sequence number \<open>_get_next_sequence_number\<close> gives is 1, not 3.
  \<open>add_screenshot\<close> returns \<open>None\<close> before it asks for a number; once \<open>create_session\<close> has
  registered the id again, over the directory that is there, the first screenshot gets the
  number 1 and the path the first screenshot before the restart had.\<close>

theorem sequence_number_after_restart:
  "persisted_count restarted_world ''abc12345'' Screenshots = Some 2
   \<and> get_next_sequence_number restarted_world ''abc12345'' Screenshots = 1
   \<and> get_next_sequence_number restarted_world ''abc12345'' Screenshots \<noteq> 2 + 1
   \<and> fst (add_screenshot 3000000 ''abc12345'' ''manual'' ''screenshot'' [] restarted_world) = Inr None
   \<and> fst (add_screenshot 4000000 ''abc12345'' ''manual'' ''screenshot'' []
             (snd (create_session working_engine 3500000 ''abc12345'' ''chromium'' True 1280 720 False
                     restarted_world)))
       = Inr (Some (filepath (an_entry 1)))"
  by (simp add: world_defs add_defs an_entry_def)

subsection \<open>Running a sequence\<close>

lemma sequence_loop_prefix:
  assumes "sequence_loop eng sid A i pre rs sh s = (Exhausted rs' sh', s')"
  shows "sequence_loop eng sid B i (pre @ rest) rs sh s =
           sequence_loop eng sid B (i + length pre) rest rs' sh' s'
         \<and> length rs' = length rs + length pre"
  using assms
proof (induction pre arbitrary: i rs sh s)
  case Nil
  then show ?case by simp
next
  case (Cons a pre)
  obtain x s1 where ap: "apply_action eng sid i a s = (x, s1)" by (cases "apply_action eng sid i a s")
  show ?case
  proof (cases x)
    case (Step_done r)
    show ?thesis
    proof (cases "screenshot_after a = Some True")
      case True
      obtain e p where c: "call eng (page s1) (Screenshot (step_path sid i)) = (e, p)"
        by (cases "call eng (page s1) (Screenshot (step_path sid i))")
      show ?thesis
      proof (cases e)
        case None
        with Cons.prems ap Step_done True c
        have "sequence_loop eng sid A (i + 1) pre
                (rs @ [r\<lparr>r_screenshot_path := Some (step_path sid i)\<rparr>])
                (sh @ [step_path sid i])
                (s1\<lparr>page := p, screenshots := screenshots s1 @ [step_path sid i]\<rparr>)
              = (Exhausted rs' sh', s')"
          by simp
        from Cons.IH [OF this] ap Step_done True c None show ?thesis by simp
      next
        case (Some msg)
        with Cons.prems ap Step_done True c show ?thesis by simp
      qed
    next
      case False
      with Cons.prems ap Step_done
      have "sequence_loop eng sid A (i + 1) pre (rs @ [r]) sh s1 = (Exhausted rs' sh', s')"
        by simp
      from Cons.IH [OF this] ap Step_done False show ?thesis by simp
    qed
  next
    case (Step_paused r path)
    with Cons.prems ap show ?thesis by simp
  next
    case (Step_raised e)
    with Cons.prems ap show ?thesis by simp
  qed
qed

lemma checkpoint_step:
  assumes "action cp = ''wait_for_screenshot_analysis''"
    and "call eng (page s) (Screenshot (analysis_path sid i)) = (None, p)"
  shows "apply_action eng sid i cp s =
    (Step_paused
       ((new_result cp i ''waiting_for_analysis'')
          \<lparr>r_screenshot_path := Some (analysis_path sid i),
           r_message := Some ''Execution paused - analyze screenshot and continue with next API call''\<rparr>)
       (analysis_path sid i),
     s\<lparr>page := p, screenshots := screenshots s @ [analysis_path sid i]\<rparr>)"
  using assms by (simp add: apply_action_def Let_def)

lemma completes_without_checkpoint:
  assumes "sequence_loop eng sid A i pre rs sh s = (Exhausted rs' sh', s')"
  shows "\<forall>a\<in>set pre. action a \<noteq> ''wait_for_screenshot_analysis''"
  using assms
proof (induction pre arbitrary: i rs sh s)
  case Nil
  then show ?case by simp
next
  case (Cons a pre)
  have a: "action a \<noteq> ''wait_for_screenshot_analysis''"
  proof
    assume "action a = ''wait_for_screenshot_analysis''"
    with Cons.prems show False
      by (auto simp: apply_action_def Let_def split: prod.splits option.splits)
  qed
  from Cons.prems obtain i' rs1 sh1 s1 where
    "sequence_loop eng sid A i' pre rs1 sh1 s1 = (Exhausted rs' sh', s')"
    by (auto split: prod.splits step_exit.splits if_splits option.splits)
  from Cons.IH [OF this] a show ?case by simp
qed

text \<open>Claim C1, as amended: when the actions before the first checkpoint, run on their
  own, complete (no call on the page raises in them or in the captures they ask for) and
  the capture of the checkpoint succeeds, \<open>execute_sequence\<close> on a session of the store
  returns the paused answer with the index \<open>k\<close> of the checkpoint, the path of its capture,
  the \<open>k\<close> results of those actions followed by one \<open>waiting_for_analysis\<close> record, and as
  continuation the exact remainder of the list after index \<open>k\<close>; the state it leaves is the
  one those actions and the capture have produced, whatever the remainder is.\<close>

theorem checkpoint_pauses:
  assumes "sessions w sid = Some s"
    and "action cp = ''wait_for_screenshot_analysis''"
    and "sequence_loop eng sid pre 0 pre [] [] s = (Exhausted rs sh, s1)"
    and "call eng (page s1) (Screenshot (analysis_path sid (length pre))) = (None, p)"
  shows "execute_sequence eng now sid (pre @ cp # suf) w =
      (Inr (Paused_for_analysis sid (length pre) (analysis_path sid (length pre)) suf
              (rs @ [(new_result cp (length pre) ''waiting_for_analysis'')
                       \<lparr>r_screenshot_path := Some (analysis_path sid (length pre)),
                        r_message := Some ''Execution paused - analyze screenshot and continue with next API call''\<rparr>])),
       w\<lparr>sessions := (sessions w)(sid \<mapsto>
            s1\<lparr>page := p, screenshots := screenshots s1 @ [analysis_path sid (length pre)]\<rparr>)\<rparr>)
    \<and> length rs = length pre
    \<and> (\<forall>a\<in>set pre. action a \<noteq> ''wait_for_screenshot_analysis'')
    \<and> suf = drop (length pre + 1) (pre @ cp # suf)"
proof -
  from sequence_loop_prefix [OF assms(3), of "pre @ cp # suf" "cp # suf"]
  have loop: "sequence_loop eng sid (pre @ cp # suf) 0 (pre @ cp # suf) [] [] s =
      sequence_loop eng sid (pre @ cp # suf) (length pre) (cp # suf) rs sh s1"
    and len: "length rs = length pre"
    by simp_all
  from checkpoint_step [OF assms(2) assms(4)] loop assms(1)
  have "execute_sequence eng now sid (pre @ cp # suf) w =
      (Inr (Paused_for_analysis sid (length pre) (analysis_path sid (length pre)) suf
              (rs @ [(new_result cp (length pre) ''waiting_for_analysis'')
                       \<lparr>r_screenshot_path := Some (analysis_path sid (length pre)),
                        r_message := Some ''Execution paused - analyze screenshot and continue with next API call''\<rparr>])),
       w\<lparr>sessions := (sessions w)(sid \<mapsto>
            s1\<lparr>page := p, screenshots := screenshots s1 @ [analysis_path sid (length pre)]\<rparr>)\<rparr>)"
    by (simp add: execute_sequence_def)
  with len completes_without_checkpoint [OF assms(3)] show ?thesis by simp
qed

text \<open>Claim C1 as stated fails: the step before the checkpoint completes, the capture
  of the checkpoint at index 1 raises, and the answer is the error answer with the one
  result of the step before, not a paused answer with two results.\<close>

theorem checkpoint_capture_raises:
  "fst (execute_sequence no_analysis_capture_engine 2000000 ''abc12345''
          [goto_example, plain_action ''wait_for_screenshot_analysis'', click_example] fresh_world)
   = Inr (Error_response ''abc12345'' ''Timeout 5000ms exceeded''
            ''/opt/code-server/recordings/screenshots/session_abc12345_error.png''
            [(new_result goto_example 0 ''success'')\<lparr>r_url := Some (Some ''https://example.com'')\<rparr>]
            2000000)"
  by (simp add: world_defs run_defs dec_values)

theorem checkpoint_pauses_witness:
  "sessions fresh_world ''abc12345'' \<noteq> None
   \<and> fst (execute_sequence working_engine 2000000 ''abc12345''
          [goto_example, plain_action ''wait_for_screenshot_analysis'', click_example] fresh_world)
     = Inr (Paused_for_analysis ''abc12345'' 1
              ''/opt/code-server/recordings/screenshots/session_abc12345_analysis_1.png''
              [click_example]
              [(new_result goto_example 0 ''success'')\<lparr>r_url := Some (Some ''https://example.com'')\<rparr>,
               (new_result (plain_action ''wait_for_screenshot_analysis'') 1 ''waiting_for_analysis'')
                 \<lparr>r_screenshot_path :=
                    Some ''/opt/code-server/recordings/screenshots/session_abc12345_analysis_1.png'',
                  r_message :=
                    Some ''Execution paused - analyze screenshot and continue with next API call''\<rparr>])"
proof -
  let ?sid = "''abc12345''"
  let ?cp = "plain_action ''wait_for_screenshot_analysis''"
  from fresh_session obtain s where s: "sessions fresh_world ?sid = Some s" by auto
  let ?s1 = "s\<lparr>page := page s @ [Goto (Some ''https://example.com'') (Some 5000)]\<rparr>"
  have cp: "action ?cp = ''wait_for_screenshot_analysis''" by (simp add: plain_action_def)
  have pre: "sequence_loop working_engine ?sid [goto_example] 0 [goto_example] [] [] s =
      (Exhausted [(new_result goto_example 0 ''success'')\<lparr>r_url := Some (Some ''https://example.com'')\<rparr>] [], ?s1)"
    by (simp add: world_defs run_defs)
  have cap: "call working_engine (page ?s1) (Screenshot (analysis_path ?sid (length [goto_example])))
      = (None, page ?s1 @ [Screenshot (analysis_path ?sid (length [goto_example]))])"
    by (simp add: world_defs)
  have path: "analysis_path ?sid (Suc 0) = ''/opt/code-server/recordings/screenshots/session_abc12345_analysis_1.png''"
    by (simp add: analysis_path_def recordings_base_def dec_values)
  from checkpoint_pauses [OF s cp pre cap, of 2000000 "[click_example]"] s path
  show ?thesis by simp
qed

lemma known_session_no_404:
  assumes "sessions w sid \<noteq> None"
  shows "fst (execute_sequence eng now sid acts w) \<noteq> Inl (HTTPException 404 ''Session not found'')"
  using assms
  by (auto simp: execute_sequence_def split: prod.splits loop_exit.splits option.splits)

text \<open>Claim C5, as amended: when the actions before action \<open>a\<close> complete, applying \<open>a\<close>
  raises and the error screenshot is captured without raising, \<open>execute_sequence\<close> returns
  the error answer with the message of the exception, the path of the error screenshot
  and the results of the actions completed before; no later action is applied, the store
  holds the same session ids as before, and a later \<open>execute_sequence\<close> on the session is
  not answered with "Session not found".\<close>

theorem action_failure_reported:
  assumes "sessions w sid = Some s"
    and "sequence_loop eng sid pre 0 pre [] [] s = (Exhausted rs sh, s1)"
    and "apply_action eng sid (length pre) a s1 = (Step_raised e, s2)"
    and "call eng (page s2) (Screenshot (error_path sid)) = (None, p)"
    and "w' = w\<lparr>sessions := (sessions w)(sid \<mapsto> s2\<lparr>page := p\<rparr>)\<rparr>"
  shows "execute_sequence eng now sid (pre @ a # suf) w =
           (Inr (Error_response sid e (error_path sid) rs now), w')
    \<and> length rs = length pre
    \<and> dom (sessions w') = dom (sessions w)
    \<and> fst (execute_sequence eng now' sid acts w') \<noteq> Inl (HTTPException 404 ''Session not found'')"
proof -
  from sequence_loop_prefix [OF assms(2), of "pre @ a # suf" "a # suf"]
  have loop: "sequence_loop eng sid (pre @ a # suf) 0 (pre @ a # suf) [] [] s =
      sequence_loop eng sid (pre @ a # suf) (length pre) (a # suf) rs sh s1"
    and len: "length rs = length pre"
    by simp_all
  from loop assms(1,3,4,5)
  have run: "execute_sequence eng now sid (pre @ a # suf) w =
           (Inr (Error_response sid e (error_path sid) rs now), w')"
    by (simp add: execute_sequence_def)
  have d: "dom (sessions w') = dom (sessions w)"
    using assms(1,5) by auto
  have "sessions w' sid \<noteq> None" using assms(5) by simp
  from known_session_no_404 [OF this] run len d show ?thesis by simp
qed

text \<open>Claim C5 as stated fails: when the capture of the error screenshot raises too,
  the exception leaves \<open>execute_sequence\<close> and there is no error answer.\<close>

theorem failure_with_dead_page:
  "fst (execute_sequence dead_engine 2000000 ''abc12345'' [click_example] fresh_world)
   = Inl (Exception ''Timeout 5000ms exceeded'')"
  by (simp add: world_defs run_defs)

theorem action_failure_reported_witness:
  "sessions fresh_world ''abc12345'' \<noteq> None
   \<and> fst (execute_sequence offline_engine 2000000 ''abc12345''
          [click_example, goto_example, click_example] fresh_world)
     = Inr (Error_response ''abc12345'' ''Timeout 5000ms exceeded''
              ''/opt/code-server/recordings/screenshots/session_abc12345_error.png''
              [(new_result click_example 0 ''success'')\<lparr>r_selector := Some (Some ''#btn'')\<rparr>]
              2000000)
   \<and> fst (execute_sequence offline_engine 3000000 ''abc12345'' [click_example]
            (snd (execute_sequence offline_engine 2000000 ''abc12345''
                    [click_example, goto_example, click_example] fresh_world)))
       \<noteq> Inl (HTTPException 404 ''Session not found'')"
proof -
  let ?sid = "''abc12345''"
  from fresh_session obtain s where s: "sessions fresh_world ?sid = Some s" by auto
  let ?s1 = "s\<lparr>page := page s @ [Click (Some ''#btn'') (Some 5000)]\<rparr>"
  let ?s2 = "?s1\<lparr>page := page ?s1 @ [Goto (Some ''https://example.com'') (Some 5000)]\<rparr>"
  let ?p = "page ?s2 @ [Screenshot (error_path ?sid)]"
  let ?w' = "fresh_world\<lparr>sessions := (sessions fresh_world)(?sid \<mapsto> ?s2\<lparr>page := ?p\<rparr>)\<rparr>"
  have pre: "sequence_loop offline_engine ?sid [click_example] 0 [click_example] [] [] s =
      (Exhausted [(new_result click_example 0 ''success'')\<lparr>r_selector := Some (Some ''#btn'')\<rparr>] [], ?s1)"
    by (simp add: world_defs run_defs)
  have fail: "apply_action offline_engine ?sid (length [click_example]) goto_example ?s1
      = (Step_raised ''Timeout 5000ms exceeded'', ?s2)"
    by (simp add: world_defs run_defs)
  have cap: "call offline_engine (page ?s2) (Screenshot (error_path ?sid)) = (None, ?p)"
    by (simp add: world_defs)
  have path: "error_path ?sid = ''/opt/code-server/recordings/screenshots/session_abc12345_error.png''"
    by (simp add: error_path_def recordings_base_def)
  from action_failure_reported [OF s pre fail cap refl, of 2000000 "[click_example]" 3000000 "[click_example]"]
  have run: "execute_sequence offline_engine 2000000 ?sid [click_example, goto_example, click_example] fresh_world
       = (Inr (Error_response ?sid ''Timeout 5000ms exceeded'' (error_path ?sid)
            [(new_result click_example 0 ''success'')\<lparr>r_selector := Some (Some ''#btn'')\<rparr>] 2000000), ?w')"
    and again: "fst (execute_sequence offline_engine 3000000 ?sid [click_example] ?w')
       \<noteq> Inl (HTTPException 404 ''Session not found'')"
    by simp_all
  from run again s path show ?thesis by simp
qed

lemma unknown_step:
  assumes "action a \<notin> set known_actions"
  shows "apply_action eng sid i a s = (Step_done (unknown_result a i), s)"
  using assms by (simp add: apply_action_def known_actions_def unknown_result_def)

lemma unknown_loop:
  assumes "\<forall>a\<in>set acts. action a \<notin> set known_actions"
    and "(\<exists>a\<in>set acts. screenshot_after a = Some True) \<longrightarrow>
           (\<forall>p path. fst (call eng p (Screenshot path)) = None)"
  shows "\<exists>rs' sh' s'. sequence_loop eng sid A i acts rs sh s = (Exhausted (rs @ rs') sh', s')
     \<and> length rs' = length acts \<and> (\<forall>r\<in>set rs'. r_status r = ''error'')
     \<and> map r_action rs' = map action acts"
  using assms
proof (induction acts arbitrary: i rs sh s)
  case Nil
  then show ?case by simp
next
  case (Cons a acts)
  from Cons.prems have a: "action a \<notin> set known_actions"
    and rest: "\<forall>b\<in>set acts. action b \<notin> set known_actions"
    and cam: "(\<exists>b\<in>set acts. screenshot_after b = Some True) \<longrightarrow>
           (\<forall>p path. fst (call eng p (Screenshot path)) = None)"
    by auto
  show ?case
  proof (cases "screenshot_after a = Some True")
    case True
    with Cons.prems have ok: "\<forall>p path. fst (call eng p (Screenshot path)) = None" by auto
    obtain p where c: "call eng (page s) (Screenshot (step_path sid i)) = (None, p)"
      using ok by (metis prod.collapse)
    let ?r = "(unknown_result a i)\<lparr>r_screenshot_path := Some (step_path sid i)\<rparr>"
    from Cons.IH [OF rest cam, of "i + 1" "rs @ [?r]" "sh @ [step_path sid i]"
        "s\<lparr>page := p, screenshots := screenshots s @ [step_path sid i]\<rparr>"]
    obtain rs' sh' s' where
      "sequence_loop eng sid A (i + 1) acts (rs @ [?r]) (sh @ [step_path sid i])
         (s\<lparr>page := p, screenshots := screenshots s @ [step_path sid i]\<rparr>)
       = (Exhausted ((rs @ [?r]) @ rs') sh', s')"
      and "length rs' = length acts" and "\<forall>r\<in>set rs'. r_status r = ''error''"
      and "map r_action rs' = map action acts"
      by blast
    with True c unknown_step [OF a, of eng sid i s] show ?thesis
      by (intro exI [of _ "?r # rs'"] exI [of _ sh'] exI [of _ s'])
         (simp add: unknown_result_def new_result_def)
  next
    case False
    let ?r = "unknown_result a i"
    from Cons.IH [OF rest cam, of "i + 1" "rs @ [?r]" sh s]
    obtain rs' sh' s' where
      "sequence_loop eng sid A (i + 1) acts (rs @ [?r]) sh s = (Exhausted ((rs @ [?r]) @ rs') sh', s')"
      and "length rs' = length acts" and "\<forall>r\<in>set rs'. r_status r = ''error''"
      and "map r_action rs' = map action acts"
      by blast
    with False unknown_step [OF a, of eng sid i s] show ?thesis
      by (intro exI [of _ "?r # rs'"] exI [of _ sh'] exI [of _ s'])
         (simp add: unknown_result_def new_result_def)
  qed
qed

text \<open>Claim C9, as amended: an action with a tag the executor does not know makes no
  call on the page and gives a step result with status \<open>error\<close> and the message
  "Unknown action: tag"; the loop goes on with the next action when the action does not ask
  for a capture, and also when it does and the capture does not raise. A list of such
  actions only is answered with \<open>completed\<close> and one \<open>error\<close> result per action, provided no
  capture is asked for or captures do not raise.\<close>

theorem unknown_action_continues:
  assumes "action a \<notin> set known_actions"
  shows "apply_action eng sid i a s = (Step_done (unknown_result a i), s)
    \<and> r_status (unknown_result a i) = ''error''
    \<and> r_message (unknown_result a i) = Some (''Unknown action: '' @ action a)
    \<and> (screenshot_after a \<noteq> Some True \<longrightarrow>
         sequence_loop eng sid A i (a # rest) rs sh s =
           sequence_loop eng sid A (i + 1) rest (rs @ [unknown_result a i]) sh s)
    \<and> (screenshot_after a = Some True \<and>
         call eng (page s) (Screenshot (step_path sid i)) = (None, p) \<longrightarrow>
         sequence_loop eng sid A i (a # rest) rs sh s =
           sequence_loop eng sid A (i + 1) rest
             (rs @ [(unknown_result a i)\<lparr>r_screenshot_path := Some (step_path sid i)\<rparr>])
             (sh @ [step_path sid i])
             (s\<lparr>page := p, screenshots := screenshots s @ [step_path sid i]\<rparr>))
    \<and> (sessions w sid = Some s \<and> (\<forall>b\<in>set acts. action b \<notin> set known_actions) \<and>
         ((\<exists>b\<in>set acts. screenshot_after b = Some True) \<longrightarrow>
            (\<forall>q path. fst (call eng q (Screenshot path)) = None)) \<longrightarrow>
         (\<exists>results shots w'.
            execute_sequence eng now sid acts w =
              (Inr (Completed sid (length acts) results shots now), w')
            \<and> length results = length acts \<and> (\<forall>r\<in>set results. r_status r = ''error'')
            \<and> map r_action results = map action acts))"
proof (intro conjI impI)
  show "apply_action eng sid i a s = (Step_done (unknown_result a i), s)"
    by (rule unknown_step [OF assms])
  show "r_status (unknown_result a i) = ''error''"
    by (simp add: unknown_result_def new_result_def)
  show "r_message (unknown_result a i) = Some (''Unknown action: '' @ action a)"
    by (simp add: unknown_result_def new_result_def)
next
  assume "screenshot_after a \<noteq> Some True"
  then show "sequence_loop eng sid A i (a # rest) rs sh s =
           sequence_loop eng sid A (i + 1) rest (rs @ [unknown_result a i]) sh s"
    using unknown_step [OF assms, of eng sid i s] by simp
next
  assume "screenshot_after a = Some True \<and>
         call eng (page s) (Screenshot (step_path sid i)) = (None, p)"
  then show "sequence_loop eng sid A i (a # rest) rs sh s =
           sequence_loop eng sid A (i + 1) rest
             (rs @ [(unknown_result a i)\<lparr>r_screenshot_path := Some (step_path sid i)\<rparr>])
             (sh @ [step_path sid i])
             (s\<lparr>page := p, screenshots := screenshots s @ [step_path sid i]\<rparr>)"
    using unknown_step [OF assms, of eng sid i s] by simp
next
  assume h: "sessions w sid = Some s \<and> (\<forall>b\<in>set acts. action b \<notin> set known_actions) \<and>
         ((\<exists>b\<in>set acts. screenshot_after b = Some True) \<longrightarrow>
            (\<forall>q path. fst (call eng q (Screenshot path)) = None))"
  then have u: "\<forall>b\<in>set acts. action b \<notin> set known_actions"
    and c: "(\<exists>b\<in>set acts. screenshot_after b = Some True) \<longrightarrow>
            (\<forall>q path. fst (call eng q (Screenshot path)) = None)"
    and s: "sessions w sid = Some s"
    by blast+
  from unknown_loop [OF u c, of sid acts 0 "[]" "[]" s]
  obtain rs' sh' s' where l: "sequence_loop eng sid acts 0 acts [] [] s = (Exhausted rs' sh', s')"
    and p: "length rs' = length acts" "\<forall>r\<in>set rs'. r_status r = ''error''"
      "map r_action rs' = map action acts"
    by auto
  from s l p(1) have "execute_sequence eng now sid acts w =
      (Inr (Completed sid (length acts) rs' sh' now), w\<lparr>sessions := (sessions w)(sid \<mapsto> s')\<rparr>)"
    by (simp add: execute_sequence_def)
  with p show "\<exists>results shots w'.
            execute_sequence eng now sid acts w =
              (Inr (Completed sid (length acts) results shots now), w')
            \<and> length results = length acts \<and> (\<forall>r\<in>set results. r_status r = ''error'')
            \<and> map r_action results = map action acts"
    by blast
qed

text \<open>Claim C9 as stated fails: a list with one unknown action that asks for a capture,
  on a page whose capture raises, is answered with \<open>error\<close> and no step result.\<close>

theorem unknown_action_with_failed_capture:
  "fst (execute_sequence flaky_capture_engine 2000000 ''abc12345'' [scroll_example] fresh_world)
   = Inr (Error_response ''abc12345'' ''Timeout 5000ms exceeded''
            ''/opt/code-server/recordings/screenshots/session_abc12345_error.png'' [] 2000000)"
  by (simp add: world_defs run_defs dec_values)

theorem unknown_action_continues_witness:
  "outcome (fst (execute_sequence working_engine 2000000 ''abc12345''
                   [hover_example, scroll_example] fresh_world))
     = Inr (''completed'', 2, [''error'', ''error''])
   \<and> sequence_loop working_engine ''abc12345'' [hover_example] 0 [hover_example] [] []
       fresh_session_value
     = (Exhausted [unknown_result hover_example 0] [], fresh_session_value)
   \<and> fst (sequence_loop working_engine ''abc12345'' [scroll_example] 0 [scroll_example] [] []
            fresh_session_value)
     = Exhausted
         [(unknown_result scroll_example 0)\<lparr>r_screenshot_path := Some (step_path ''abc12345'' 0)\<rparr>]
         [step_path ''abc12345'' 0]"
proof -
  let ?sid = "''abc12345''"
  let ?acts = "[hover_example, scroll_example]"
  from fresh_session obtain s where s: "sessions fresh_world ?sid = Some s" by auto
  have h: "action hover_example \<notin> set known_actions"
    by (simp add: hover_example_def plain_action_def known_actions_def)
  have all: "\<forall>b\<in>set ?acts. action b \<notin> set known_actions"
    by (simp add: hover_example_def scroll_example_def plain_action_def known_actions_def)
  have cam: "(\<exists>b\<in>set ?acts. screenshot_after b = Some True) \<longrightarrow>
      (\<forall>q path. fst (call working_engine q (Screenshot path)) = None)"
    by (simp add: world_defs)
  have nocap: "screenshot_after hover_example \<noteq> Some True"
    by (simp add: hover_example_def plain_action_def)
  note inst = unknown_action_continues [OF h, of working_engine ?sid 0 s "[hover_example]" "[]" "[]" "[]"
      "[]" fresh_world ?acts 2000000]
  from inst s all cam
  obtain results shots w' where run: "execute_sequence working_engine 2000000 ?sid ?acts fresh_world =
              (Inr (Completed ?sid (length ?acts) results shots 2000000), w')"
    and len: "length results = length ?acts" and err: "\<forall>r\<in>set results. r_status r = ''error''"
    by blast
  from len obtain x y where "results = [x, y]"
    by (cases results; simp) (rename_tac x xs, case_tac xs; simp)
  with err run have a: "outcome (fst (execute_sequence working_engine 2000000 ?sid ?acts fresh_world))
     = Inr (''completed'', 2, [''error'', ''error''])"
    by (simp add: outcome_def)
  from unknown_action_continues [OF h, of working_engine ?sid 0 fresh_session_value
      "[hover_example]" "[]" "[]" "[]"] nocap
  have b: "sequence_loop working_engine ?sid [hover_example] 0 [hover_example] [] []
       fresh_session_value
     = (Exhausted [unknown_result hover_example 0] [], fresh_session_value)"
    by simp
  have h2: "action scroll_example \<notin> set known_actions"
    by (simp add: scroll_example_def plain_action_def known_actions_def)
  have cap: "screenshot_after scroll_example = Some True \<and>
      call working_engine (page fresh_session_value) (Screenshot (step_path ?sid 0))
        = (None, page fresh_session_value @ [Screenshot (step_path ?sid 0)])"
    by (simp add: scroll_example_def plain_action_def world_defs)
  from unknown_action_continues [OF h2, of working_engine ?sid 0 fresh_session_value
      "[scroll_example]" "[]" "[]" "[]" "page fresh_session_value @ [Screenshot (step_path ?sid 0)]"] cap
  have c: "fst (sequence_loop working_engine ?sid [scroll_example] 0 [scroll_example] [] []
            fresh_session_value)
     = Exhausted
         [(unknown_result scroll_example 0)\<lparr>r_screenshot_path := Some (step_path ?sid 0)\<rparr>]
         [step_path ?sid 0]"
    by simp
  from a b c show ?thesis by simp
qed

text \<open>Claim C2 fails on the code: a sequence with a capture after the first step and a
  checkpoint returns with both paths in the session's list in memory, and \<open>metadata.json\<close>
  still records no screenshot and the last activity of the creation.\<close>

theorem sequence_screenshots_not_persisted:
  "outcome (fst (execute_sequence working_engine 2000000 ''abc12345''
             [goto_example\<lparr>screenshot_after := Some True\<rparr>,
              plain_action ''wait_for_screenshot_analysis''] fresh_world))
     = Inr (''paused_for_analysis'', 2, [''success'', ''waiting_for_analysis''])
   \<and> map_option screenshots
        (sessions (snd (execute_sequence working_engine 2000000 ''abc12345''
             [goto_example\<lparr>screenshot_after := Some True\<rparr>,
              plain_action ''wait_for_screenshot_analysis''] fresh_world)) ''abc12345'')
     = Some [''/opt/code-server/recordings/screenshots/session_abc12345_step_0.png'',
             ''/opt/code-server/recordings/screenshots/session_abc12345_analysis_1.png'']
   \<and> map_option md_screenshots
        (persisted_metadata (snd (execute_sequence working_engine 2000000 ''abc12345''
             [goto_example\<lparr>screenshot_after := Some True\<rparr>,
              plain_action ''wait_for_screenshot_analysis''] fresh_world)) ''abc12345'')
     = Some []
   \<and> map_option md_last_activity
        (persisted_metadata (snd (execute_sequence working_engine 2000000 ''abc12345''
             [goto_example\<lparr>screenshot_after := Some True\<rparr>,
              plain_action ''wait_for_screenshot_analysis''] fresh_world)) ''abc12345'')
     = Some 1000000"
  by (simp add: world_defs run_defs dec_values outcome_def)

lemma execute_sequence_keeps_disk:
  "session_dirs (snd (execute_sequence eng now sid acts w)) = session_dirs w
   \<and> archived (snd (execute_sequence eng now sid acts w)) = archived w"
  by (simp add: execute_sequence_def split: option.splits prod.splits loop_exit.splits)

subsection \<open>The sweep\<close>

lemmas sweep_defs = two_world_def kept_handle_engine_def cleanup_old_sessions_def cleanup_one_def
  too_old_def close_session_def finalize_video_def archive_path_def shutil_move_def endswith_def

lemma save_keeps_store:
  assumes "save_session_metadata sid md w = Inr w'"
  shows "sessions w' = sessions w \<and> archived w' = archived w"
  using assms by (auto simp: save_session_metadata_def split: option.splits)

lemma save_result_keeps_store:
  assumes "(case save_session_metadata sid md w0 of Inl e \<Rightarrow> (Inl e, w0)
            | Inr w2 \<Rightarrow> (Inr (Some fpath), w2)) = (r, w')"
  shows "sessions w' = sessions w0 \<and> archived w' = archived w0"
  using assms by (auto split: sum.splits dest!: save_keeps_store)

lemma add_video_keeps_store:
  assumes "sessions w sid = Some s" and "add_video now sid descr w = (r, w')"
  shows "dom (sessions w') = dom (sessions w) \<and> archived w' = archived w"
proof -
  from assms obtain w0 s' where "sessions w' = sessions w0 \<and> archived w' = archived w0"
    and "w0 = w\<lparr>sessions := (sessions w)(sid \<mapsto> s')\<rparr>"
    unfolding add_video_def Let_def by (simp only: option.case) (drule save_result_keeps_store, blast)
  with assms(1) show ?thesis by auto
qed

lemma finalize_video_keeps_store:
  assumes "sessions w sid = Some s" and "finalize_video now sid s0 w = (r, w')"
  shows "dom (sessions w') = dom (sessions w) \<and> archived w' = archived w"
proof (cases "\<exists>r1 w1. (r1, w1) = add_video now sid ''session_recording'' w \<and> (w' = w1 \<or> (archived w' = archived w1 \<and> sessions w' = sessions w1))")
  case True
  then obtain r1 w1 where a: "add_video now sid ''session_recording'' w = (r1, w1)"
    and b: "w' = w1 \<or> (archived w' = archived w1 \<and> sessions w' = sessions w1)" by metis
  from b have "sessions w' = sessions w1 \<and> archived w' = archived w1" by auto
  with add_video_keeps_store [OF assms(1) a] show ?thesis by simp
next
  case False
  with assms(2) show ?thesis
    by (auto simp: finalize_video_def Let_def split: if_splits option.splits list.splits prod.splits sum.splits)
qed

lemma run_calls_last:
  "fst (run_calls eng p (cs @ [c])) = None \<Longrightarrow> \<exists>p'. fst (call eng p' c) = None"
proof (induction cs arbitrary: p)
  case Nil
  then have "fst (call eng p c) = None"
    by (cases "call eng p c") (auto split: option.splits)
  then show ?case by blast
next
  case (Cons a cs)
  then show ?case by (cases "call eng p a") (auto split: option.splits)
qed

lemma run_calls_exit:
  assumes "\<And>p. fst (call eng p Playwright_exit) \<noteq> None"
  shows "fst (run_calls eng p [Context_close, Browser_close, Playwright_exit]) \<noteq> None"
proof
  assume "fst (run_calls eng p [Context_close, Browser_close, Playwright_exit]) = None"
  then have "fst (run_calls eng p ([Context_close, Browser_close] @ [Playwright_exit])) = None"
    by (simp del: run_calls.simps)
  from run_calls_last [OF this] assms show False by blast
qed

lemma close_session_raises:
  assumes exit: "\<And>p. fst (call eng p Playwright_exit) \<noteq> None"
    and s: "sessions w sid = Some s"
    and c: "close_session eng now sid w = (r, w')"
  shows "(\<exists>e. r = Inl e) \<and> dom (sessions w') = dom (sessions w) \<and> archived w' = archived w"
proof -
  obtain r1 w1 where f: "finalize_video now sid s w = (r1, w1)" by (cases "finalize_video now sid s w")
  from finalize_video_keeps_store [OF s f]
  have k1: "dom (sessions w1) = dom (sessions w)" "archived w1 = archived w" by simp_all
  from s k1 have "sid \<in> dom (sessions w1)" by auto
  then obtain s1 where s1: "sessions w1 sid = Some s1" by auto
  from k1 s1 have dom_upd: "\<And>x. dom ((sessions w1)(sid \<mapsto> x)) = dom (sessions w)" by auto
  from run_calls_exit [OF exit] have
    rc: "\<And>p. fst (run_calls eng p [Context_close, Browser_close, Playwright_exit]) \<noteq> None" .
  show ?thesis
  proof (cases r1)
    case (Inl e)
    with c s f k1 show ?thesis by (auto simp: close_session_def)
  next
    case (Inr u)
    let ?md = "(metadata s1)\<lparr>md_status := ''completed'', md_last_activity := now\<rparr>"
    let ?s' = "s1\<lparr>metadata := ?md\<rparr>"
    let ?w2 = "w1\<lparr>sessions := (sessions w1)(sid \<mapsto> ?s')\<rparr>"
    show ?thesis
    proof (cases "save_session_metadata sid ?md ?w2")
      case (Inl e)
      with c s f \<open>r1 = Inr u\<close> s1 have "r = Inl e \<and> w' = ?w2"
        by (auto simp: close_session_def Let_def)
      with k1 dom_upd show ?thesis by simp
    next
      case (Inr w3)
      from save_keeps_store [OF Inr] have k3: "sessions w3 = sessions ?w2" "archived w3 = archived ?w2"
        by simp_all
      obtain e p' where run: "run_calls eng (page ?s') [Context_close, Browser_close, Playwright_exit] = (Some e, p')"
        using rc [of "page ?s'"] by (cases "run_calls eng (page ?s') [Context_close, Browser_close, Playwright_exit]") auto
      from c s f \<open>r1 = Inr u\<close> s1 Inr run
      have "r = Inl (Exception e)" "w' = w3\<lparr>sessions := (sessions w3)(sid \<mapsto> ?s'\<lparr>page := p'\<rparr>)\<rparr>"
        by (simp_all add: close_session_def Let_def del: run_calls.simps)
      with k3 k1 dom_upd show ?thesis by simp
    qed
  qed
qed

lemma shutil_move_keeps_store:
  assumes "shutil_move src dst w = Inr w'"
  shows "sessions w' = sessions w"
  using assms by (auto simp: shutil_move_def Let_def split: option.splits if_splits)

lemma cleanup_one_keeps_store:
  assumes exit: "\<And>p. fst (call eng p Playwright_exit) \<noteq> None"
    and c: "cleanup_one eng current_time close_at max_age_hours session_path (w, cleaned) = (w', cleaned')"
  shows "dom (sessions w') = dom (sessions w)
     \<and> set (map cs_session_id cleaned') \<subseteq> set (map cs_session_id cleaned) \<union> - dom (sessions w)"
proof (cases "\<exists>d md. map_of (session_dirs w) session_path = Some d \<and> metadata_json d = Some (Parsed md)
     \<and> too_old current_time max_age_hours (md_last_activity md)")
  case False
  with c have "w' = w \<and> cleaned' = cleaned"
    by (auto simp: cleanup_one_def split: option.splits meta_file.splits if_splits)
  then show ?thesis by auto
next
  case True
  then obtain d md where d: "map_of (session_dirs w) session_path = Some d"
    and md: "metadata_json d = Some (Parsed md)"
    and old: "too_old current_time max_age_hours (md_last_activity md)" by blast
  show ?thesis
  proof (cases "sessions w (md_session_id md)")
    case None
    with c d md old show ?thesis
      by (auto simp: cleanup_one_def split: sum.splits dest!: shutil_move_keeps_store)
  next
    case (Some s)
    obtain r w1 where cl: "close_session eng close_at (md_session_id md) w = (r, w1)"
      by (cases "close_session eng close_at (md_session_id md) w")
    from close_session_raises [OF exit Some cl] obtain e where
      "r = Inl e" "dom (sessions w1) = dom (sessions w)" by blast
    with c d md old Some cl show ?thesis
      by (auto simp: cleanup_one_def)
  qed
qed

lemma cleanup_fold_keeps_store:
  assumes exit: "\<And>p. fst (call eng p Playwright_exit) \<noteq> None"
  shows "fold (cleanup_one eng current_time close_at max_age_hours) paths (w, cleaned) = (w', cleaned')
     \<Longrightarrow> dom (sessions w') = dom (sessions w)
       \<and> set (map cs_session_id cleaned') \<subseteq> set (map cs_session_id cleaned) \<union> - dom (sessions w)"
proof (induction paths arbitrary: w cleaned)
  case Nil
  then show ?case by auto
next
  case (Cons x paths)
  obtain w1 c1 where one: "cleanup_one eng current_time close_at max_age_hours x (w, cleaned) = (w1, c1)"
    by (cases "cleanup_one eng current_time close_at max_age_hours x (w, cleaned)")
  with Cons.prems have "fold (cleanup_one eng current_time close_at max_age_hours) paths (w1, c1) = (w', cleaned')"
    by simp
  from Cons.IH [OF this] have a: "dom (sessions w') = dom (sessions w1)"
    and b: "set (map cs_session_id cleaned') \<subseteq> set (map cs_session_id c1) \<union> - dom (sessions w1)"
    by simp_all
  from cleanup_one_keeps_store [OF exit one] have c: "dom (sessions w1) = dom (sessions w)"
    and d: "set (map cs_session_id c1) \<subseteq> set (map cs_session_id cleaned) \<union> - dom (sessions w)"
    by simp_all
  from a c have "dom (sessions w') = dom (sessions w)" by simp
  moreover from b c d have
    "set (map cs_session_id cleaned') \<subseteq> set (map cs_session_id cleaned) \<union> - dom (sessions w)"
    by blast
  ultimately show ?case by simp
qed

text \<open>On an engine whose \<open>__aexit__\<close> raises, whatever the state and the arguments, the
  sweep removes no session from the store and reports no session of the store as
  cleaned.\<close>

lemma sweep_closes_no_session:
  assumes "\<And>p. fst (call eng p Playwright_exit) \<noteq> None"
    and "cleanup_old_sessions eng current_time close_at max_age_hours w = (cleaned, w')"
  shows "dom (sessions w') = dom (sessions w)
     \<and> (\<forall>c \<in> set cleaned. sessions w (cs_session_id c) = None)"
proof -
  from assms(2) have "fold (cleanup_one eng current_time close_at max_age_hours)
      (map fst (session_dirs w)) (w, []) = (w', cleaned)"
    by (auto simp: cleanup_old_sessions_def split: prod.splits)
  from cleanup_fold_keeps_store [OF assms(1) this] show ?thesis by auto
qed

lemma kept_handle_exit_raises: "fst (call kept_handle_engine p Playwright_exit) \<noteq> None"
  by (simp add: kept_handle_engine_def)

text \<open>On an engine whose \<open>__aexit__\<close> returns, the sweep of the run below closes both
  sessions, moves both directories and leaves the store empty.\<close>

lemma sweep_with_exit_that_returns:
  "fst (cleanup_old_sessions working_engine 2000000 2000500 0 two_world)
     = [\<lparr>cs_session_id = ''abc12345'', cs_last_activity = 1000000,
         cs_archived_to = ''/opt/code-server/recordings/archived/session_abc12345_1''\<rparr>,
        \<lparr>cs_session_id = ''beef0002'', cs_last_activity = 1500000,
         cs_archived_to = ''/opt/code-server/recordings/archived/session_beef0002_1''\<rparr>]
   \<and> sessions (snd (cleanup_old_sessions working_engine 2000000 2000500 0 two_world)) = Map.empty
   \<and> session_dirs (snd (cleanup_old_sessions working_engine 2000000 2000500 0 two_world)) = []
   \<and> map fst (archived (snd (cleanup_old_sessions working_engine 2000000 2000500 0 two_world)))
       = [''/opt/code-server/recordings/archived/session_abc12345_1'',
          ''/opt/code-server/recordings/archived/session_beef0002_1'']"
  by (simp add: world_defs sweep_defs dec_values)

text \<open>Claim C8 fails on the code: two sessions are active, both older than the reading
  of the clock the sweep takes, and the sweep is run with a maximum age of 0. For each of
  them \<open>close_session\<close> writes the status \<open>completed\<close>, closes the context and the browser
  and then raises at \<open>__aexit__\<close>; the \<open>except\<close> of the sweep skips the directory. Nothing
  is reported as cleaned, nothing is archived, both directories stay where they were and
  both sessions are still in the store.\<close>

theorem sweep_archives_no_active_session:
  "dom (sessions two_world) = {''beef0002'', ''abc12345''}
   \<and> map fst (session_dirs two_world) = [session_dir_path ''abc12345'', session_dir_path ''beef0002'']
   \<and> fst (cleanup_old_sessions kept_handle_engine 2000000 2000500 0 two_world) = []
   \<and> dom (sessions (snd (cleanup_old_sessions kept_handle_engine 2000000 2000500 0 two_world)))
       = {''beef0002'', ''abc12345''}
   \<and> archived (snd (cleanup_old_sessions kept_handle_engine 2000000 2000500 0 two_world)) = []
   \<and> map fst (session_dirs (snd (cleanup_old_sessions kept_handle_engine 2000000 2000500 0 two_world)))
       = [session_dir_path ''abc12345'', session_dir_path ''beef0002'']"
  by (simp add: world_defs sweep_defs)

end
